theory Spec2Isabelle
  imports Main "HOL-Library.Char_ord" "HOL-Library.List_Lexorder"
begin

section \<open>Python values and the library functions the pipelines call\<close>

text \<open>
  The values that reach the parsers: what \<^verbatim>\<open>pd.read_excel\<close> puts in a cell (a missing
  cell is the float NaN, otherwise a string, a number or a boolean) and what the two
  decoders \<^verbatim>\<open>json.loads\<close> and \<^verbatim>\<open>ast.literal_eval\<close> return (also \<^verbatim>\<open>None\<close>, lists and
  dicts). A finite float is kept as mantissa and exponent; only whether it is zero matters
  here. A dict is the list of its items in insertion order; Python keeps the keys of a dict
  pairwise different. A string is the list of its code points, which this model takes below 256.
\<close>

datatype pyval =
    PNone
  | PNaN
  | PBool bool
  | PInt int
  | PFloat int int
  | PStr string
  | PList "pyval list"
  | PDict "(pyval \<times> pyval) list"

text \<open>The exception classes that the code distinguishes or lets through.\<close>

datatype pyerr =
    JSONDecodeError
  | SyntaxError
  | ValueError
  | RecursionError
  | AttributeError
  | UnboundLocalError
  | KeyError
  | TypeError
  | Exception

text \<open>
  The library functions are not code of the repository, so they are parameters of the model:
  the two decoders (\<open>Inl\<close> is the exception raised), \<^verbatim>\<open>str\<close> on a finite float, a list
  or a dict, the truth value of \<^verbatim>\<open>pd.isna\<close> on a list, which is an array and raises
  for most lists, and the title that openpyxl gives a new sheet whose title is taken.
\<close>

record pylib =
  json_loads :: "string \<Rightarrow> pyerr + pyval"
  literal_eval :: "string \<Rightarrow> pyerr + pyval"
  repr_of :: "pyval \<Rightarrow> string"
  isna_list :: "pyval list \<Rightarrow> pyerr + bool"
  next_title :: "string list \<Rightarrow> string \<Rightarrow> string"

text \<open>\<^verbatim>\<open>bool(pd.isna(v))\<close>, as the guards \<^verbatim>\<open>if pd.isna(v) or ...\<close> evaluate it.\<close>

fun isna_truth :: "pylib \<Rightarrow> pyval \<Rightarrow> pyerr + bool" where
  "isna_truth L PNone = Inr True"
| "isna_truth L PNaN = Inr True"
| "isna_truth L (PList xs) = isna_list L xs"
| "isna_truth L v = Inr False"

text \<open>\<^verbatim>\<open>bool(v)\<close>, as \<^verbatim>\<open>not v\<close> and \<^verbatim>\<open>any(...)\<close> evaluate it.\<close>

fun truthy :: "pyval \<Rightarrow> bool" where
  "truthy PNone = False"
| "truthy PNaN = True"
| "truthy (PBool b) = b"
| "truthy (PInt i) = (i \<noteq> 0)"
| "truthy (PFloat m e) = (m \<noteq> 0)"
| "truthy (PStr s) = (s \<noteq> [])"
| "truthy (PList xs) = (xs \<noteq> [])"
| "truthy (PDict kvs) = (kvs \<noteq> [])"

text \<open>\<^verbatim>\<open>str(v)\<close>; an integer prints in decimal.\<close>

fun digits :: "nat \<Rightarrow> string" where
  "digits n =
     (if n < 10 then [char_of (48 + n)]
      else digits (n div 10) @ [char_of (48 + n mod 10)])"

definition show_int :: "int \<Rightarrow> string" where
  "show_int i = (if i < 0 then CHR ''-'' # digits (nat (- i)) else digits (nat i))"

fun py_str :: "pylib \<Rightarrow> pyval \<Rightarrow> string" where
  "py_str L (PStr s) = s"
| "py_str L PNone = ''None''"
| "py_str L PNaN = ''nan''"
| "py_str L (PBool b) = (if b then ''True'' else ''False'')"
| "py_str L (PInt i) = show_int i"
| "py_str L v = repr_of L v"

fun is_str :: "pyval \<Rightarrow> bool" where
  "is_str (PStr s) = True"
| "is_str v = False"

fun is_dict :: "pyval \<Rightarrow> bool" where
  "is_dict (PDict kvs) = True"
| "is_dict v = False"

section \<open>String methods\<close>

text \<open>\<^verbatim>\<open>str.isspace\<close> on one code point below 256.\<close>

definition py_isspace :: "char \<Rightarrow> bool" where
  "py_isspace c =
     (let n = (of_char c :: nat)
      in (9 \<le> n \<and> n \<le> 13) \<or> (28 \<le> n \<and> n \<le> 32) \<or> n = 133 \<or> n = 160)"

text \<open>\<^verbatim>\<open>s.strip()\<close>.\<close>

definition strip :: "string \<Rightarrow> string" where
  "strip s = rev (dropWhile py_isspace (rev (dropWhile py_isspace s)))"

text \<open>\<^verbatim>\<open>s.split()\<close>: the maximal runs of characters that are not whitespace.\<close>

fun split_ws :: "string \<Rightarrow> string \<Rightarrow> string list" where
  "split_ws w [] = (if w = [] then [] else [rev w])"
| "split_ws w (c # cs) =
     (if py_isspace c then (if w = [] then split_ws [] cs else rev w # split_ws [] cs)
      else split_ws (c # w) cs)"

definition split :: "string \<Rightarrow> string list" where
  "split s = split_ws [] s"

text \<open>\<^verbatim>\<open>' '.join(ws)\<close>.\<close>

fun join_sp :: "string list \<Rightarrow> string" where
  "join_sp [] = []"
| "join_sp [w] = w"
| "join_sp (w # v # ws) = w @ CHR '' '' # join_sp (v # ws)"

text \<open>\<^verbatim>\<open>s.lower()\<close> on code points below 256: the ASCII and the Latin-1 capital letters.\<close>

definition lower_char :: "char \<Rightarrow> char" where
  "lower_char c =
     (let n = (of_char c :: nat)
      in if (65 \<le> n \<and> n \<le> 90) \<or> (192 \<le> n \<and> n \<le> 222 \<and> n \<noteq> 215)
         then char_of (n + 32) else c)"

definition lower :: "string \<Rightarrow> string" where
  "lower s = map lower_char s"

text \<open>\<^verbatim>\<open>s.startswith(p)\<close> and \<^verbatim>\<open>sub in s\<close>.\<close>

fun startswith :: "string \<Rightarrow> string \<Rightarrow> bool" where
  "startswith s [] = True"
| "startswith [] (p # ps) = False"
| "startswith (c # cs) (p # ps) = (c = p \<and> startswith cs ps)"

fun py_in :: "string \<Rightarrow> string \<Rightarrow> bool" where
  "py_in sub [] = (sub = [])"
| "py_in sub (c # cs) = (startswith (c # cs) sub \<or> py_in sub cs)"

text \<open>
  \<^verbatim>\<open>s.rsplit(' ', 1)\<close>: one split at the last space character; the string alone when it
  has no space.
\<close>

definition rsplit1 :: "string \<Rightarrow> string list" where
  "rsplit1 s =
     (if CHR '' '' \<in> set s
      then [rev (tl (dropWhile (\<lambda>c. c \<noteq> CHR '' '') (rev s))),
            rev (takeWhile (\<lambda>c. c \<noteq> CHR '' '') (rev s))]
      else [s])"

text \<open>
  \<^verbatim>\<open>re.sub(r'\[.*?\]', '', s)\<close>. A match starts at an opening bracket and ends at the
  first closing bracket after it; the dot does not match a newline, so there is no match at
  an opening bracket whose line ends before a closing bracket. \<open>lazy_close\<close> reads the text
  after the opening bracket and returns what follows the match.
\<close>

fun lazy_close :: "string \<Rightarrow> string option" where
  "lazy_close [] = None"
| "lazy_close (c # cs) =
     (if c = CHR '']'' then Some cs
      else if c = CHR 0x0A then None
      else lazy_close cs)"

function re_sub_brackets :: "string \<Rightarrow> string" where
  "re_sub_brackets [] = []"
| "re_sub_brackets (c # cs) =
     (if c = CHR ''[''
      then (case lazy_close cs of
              Some rest \<Rightarrow> re_sub_brackets rest
            | None \<Rightarrow> c # re_sub_brackets cs)
      else c # re_sub_brackets cs)"
  by pat_completeness auto

termination
proof (relation "measure length")
  have shorter: "length r \<le> length xs" if "lazy_close xs = Some r" for xs r
    using that by (induction xs) (auto split: if_splits)
  fix c :: char and cs rest :: string
  assume "lazy_close cs = Some rest"
  then show "(rest, c # cs) \<in> measure length"
    using shorter [of cs rest] by simp
qed auto

section \<open>Cleaning the tenant name\<close>

text \<open>
  \<open>clean_tenant_name\<close> of the navigation pipeline (\<^verbatim>\<open>src/unnamed/part_000\<close>): brackets
  removed, then \<^verbatim>\<open>' '.join(s.split())\<close>, then \<^verbatim>\<open>strip\<close>. \<open>None\<close> is Python's \<^verbatim>\<open>None\<close>.
\<close>

definition clean_tenant_name_nav :: "pylib \<Rightarrow> pyval \<Rightarrow> pyerr + string option" where
  "clean_tenant_name_nav L v =
     (case isna_truth L v of
        Inl e \<Rightarrow> Inl e
      | Inr True \<Rightarrow> Inr None
      | Inr False \<Rightarrow> Inr (Some (strip (join_sp (split (re_sub_brackets (py_str L v)))))))"

text \<open>
  \<open>clean_tenant_name\<close> of the optimised pipeline (\<^verbatim>\<open>src/temp.py\<close>): brackets removed, then
  \<^verbatim>\<open>strip\<close> only.
\<close>

definition clean_tenant_name_opt :: "pylib \<Rightarrow> pyval \<Rightarrow> pyerr + string option" where
  "clean_tenant_name_opt L v =
     (case isna_truth L v of
        Inl e \<Rightarrow> Inl e
      | Inr True \<Rightarrow> Inr None
      | Inr False \<Rightarrow> Inr (Some (strip (re_sub_brackets (py_str L v)))))"

section \<open>The operating-system field\<close>

text \<open>\<^verbatim>\<open>d.get(k, default)\<close> with a string key.\<close>

definition dict_get :: "(pyval \<times> pyval) list \<Rightarrow> string \<Rightarrow> pyval \<Rightarrow> pyval" where
  "dict_get kvs k dflt = (case map_of kvs (PStr k) of Some v \<Rightarrow> v | None \<Rightarrow> dflt)"

text \<open>\<^verbatim>\<open>str(d.get(k, '')).strip() or None\<close>.\<close>

definition field_or_none :: "pylib \<Rightarrow> (pyval \<times> pyval) list \<Rightarrow> string \<Rightarrow> string option" where
  "field_or_none L kvs k =
     (let t = strip (py_str L (dict_get kvs k (PStr [])))
      in if t = [] then None else Some t)"

text \<open>\<^verbatim>\<open>any(x in s.lower() for x in ['name', 'version'])\<close>.\<close>

definition has_markers :: "string \<Rightarrow> bool" where
  "has_markers s = (py_in ''name'' (lower s) \<or> py_in ''version'' (lower s))"

text \<open>\<^verbatim>\<open>(parts[0], parts[1]) if len(parts) > 1 else (s, None)\<close> for \<^verbatim>\<open>parts = s.rsplit(' ', 1)\<close>.\<close>

definition split_pair :: "string \<Rightarrow> string option \<times> string option" where
  "split_pair s =
     (let parts = rsplit1 s
      in if length parts > 1 then (Some (parts ! 0), Some (parts ! 1)) else (Some s, None))"

text \<open>
  The last two statements of both \<open>parse_os_data\<close>: the two sub-fields of a dict, the string
  form of anything else.
\<close>

definition os_fields :: "pylib \<Rightarrow> pyval \<Rightarrow> string option \<times> string option" where
  "os_fields L v =
     (case v of
        PDict kvs \<Rightarrow> (field_or_none L kvs ''name'', field_or_none L kvs ''version'')
      | _ \<Rightarrow> (Some (py_str L v), None))"

text \<open>
  \<open>parse_os_data\<close> of the navigation pipeline (\<^verbatim>\<open>src/unnamed/part_000\<close>). Only a
  \<^verbatim>\<open>JSONDecodeError\<close> of the first decoder leads to the second one; any other exception of
  the first decoder leaves the function. The decoded value replaces \<^verbatim>\<open>os_value\<close>.
\<close>

definition parse_os_data_nav ::
  "pylib \<Rightarrow> pyval \<Rightarrow> pyerr + (string option \<times> string option)" where
  "parse_os_data_nav L v =
     (case isna_truth L v of
        Inl e \<Rightarrow> Inl e
      | Inr True \<Rightarrow> Inr (None, None)
      | Inr False \<Rightarrow>
          (case v of
             PStr s \<Rightarrow>
               if s = [] then Inr (None, None)
               else if \<not> has_markers s then Inr (split_pair s)
               else (case json_loads L s of
                       Inr d \<Rightarrow> Inr (os_fields L d)
                     | Inl e \<Rightarrow>
                         if e = JSONDecodeError
                         then (case literal_eval L s of
                                 Inr d \<Rightarrow> Inr (os_fields L d)
                               | Inl e' \<Rightarrow> Inr (Some s, None))
                         else Inl e)
           | _ \<Rightarrow> Inr (os_fields L v)))"

text \<open>
  \<open>parse_os_data\<close> of the optimised pipeline (\<^verbatim>\<open>src/temp.py\<close>). One decoder is chosen by
  the first character and every exception of it gives the raw string; a decoded value that
  is not a dict is dropped and the raw string goes through the last two statements.
\<close>

definition parse_os_data_opt ::
  "pylib \<Rightarrow> pyval \<Rightarrow> pyerr + (string option \<times> string option)" where
  "parse_os_data_opt L v =
     (case isna_truth L v of
        Inl e \<Rightarrow> Inl e
      | Inr True \<Rightarrow> Inr (None, None)
      | Inr False \<Rightarrow>
          if \<not> truthy v then Inr (None, None)
          else (case v of
                  PStr s \<Rightarrow>
                    if \<not> has_markers s then Inr (split_pair s)
                    else (case (if startswith s ''{'' \<or> startswith s ''[''
                                then json_loads L s else literal_eval L s) of
                            Inl e \<Rightarrow> Inr (Some s, None)
                          | Inr d \<Rightarrow>
                              (case d of
                                 PDict kvs \<Rightarrow>
                                   Inr (field_or_none L kvs ''name'',
                                        field_or_none L kvs ''version'')
                               | _ \<Rightarrow> Inr (os_fields L v)))
                | _ \<Rightarrow> Inr (os_fields L v)))"

section \<open>The software and vulnerability lists\<close>

definition software_fields :: "string list" where
  "software_fields = [''name'', ''version'', ''vendor'']"

definition vuln_fields :: "string list" where
  "vuln_fields =
     [''kasperskyID'', ''productName'', ''descriptionURL'', ''recommendedMajorPatch'',
      ''recommendedMinorPatch'', ''severityStr'', ''severity'', ''cve'', ''exploitExists'',
      ''malwareExists'']"

fun items_of :: "pyval \<Rightarrow> (pyval \<times> pyval) list" where
  "items_of (PDict kvs) = kvs"
| "items_of v = []"

text \<open>
  The list comprehension of the two pipelines: one output dict (its items, in the order of
  \<open>fs\<close>) for each element that is a dict; the empty list when the value is not a list.
\<close>

definition extract_items ::
  "pylib \<Rightarrow> string list \<Rightarrow> pyval \<Rightarrow> (string \<times> string option) list list" where
  "extract_items L fs d =
     (case d of
        PList xs \<Rightarrow>
          map (\<lambda>item. map (\<lambda>f. (f, field_or_none L (items_of item) f)) fs)
            (filter is_dict xs)
      | _ \<Rightarrow> [])"

text \<open>
  \<open>parse_software_data\<close> and \<open>parse_vulnerabilities_data\<close> of the navigation pipeline
  differ in the field names only.
\<close>

definition parse_list_nav ::
  "pylib \<Rightarrow> string list \<Rightarrow> pyval \<Rightarrow> pyerr + (string \<times> string option) list list" where
  "parse_list_nav L fs v =
     (case isna_truth L v of
        Inl e \<Rightarrow> Inl e
      | Inr True \<Rightarrow> Inr []
      | Inr False \<Rightarrow>
          (case v of
             PStr s \<Rightarrow>
               if s = [] then Inr []
               else (case json_loads L s of
                       Inr d \<Rightarrow> Inr (extract_items L fs d)
                     | Inl e \<Rightarrow>
                         if e = JSONDecodeError
                         then (case literal_eval L s of
                                 Inr d \<Rightarrow> Inr (extract_items L fs d)
                               | Inl e' \<Rightarrow> Inr [])
                         else Inl e)
           | _ \<Rightarrow> Inr (extract_items L fs v)))"

definition parse_software_data_nav ::
  "pylib \<Rightarrow> pyval \<Rightarrow> pyerr + (string \<times> string option) list list" where
  "parse_software_data_nav L v = parse_list_nav L software_fields v"

definition parse_vulnerabilities_data_nav ::
  "pylib \<Rightarrow> pyval \<Rightarrow> pyerr + (string \<times> string option) list list" where
  "parse_vulnerabilities_data_nav L v = parse_list_nav L vuln_fields v"

text \<open>
  \<open>parse_json_data\<close> of the optimised pipeline (\<^verbatim>\<open>src/temp.py\<close>): the outer \<^verbatim>\<open>try\<close> turns
  every other exception of the first decoder into the empty list.
\<close>

definition parse_json_data ::
  "pylib \<Rightarrow> pyval \<Rightarrow> string list \<Rightarrow> pyerr + (string \<times> string option) list list" where
  "parse_json_data L v fs =
     (case isna_truth L v of
        Inl e \<Rightarrow> Inl e
      | Inr True \<Rightarrow> Inr []
      | Inr False \<Rightarrow>
          if \<not> truthy v then Inr []
          else (case v of
                  PStr s \<Rightarrow>
                    (case json_loads L s of
                       Inr d \<Rightarrow> Inr (extract_items L fs d)
                     | Inl e \<Rightarrow>
                         if e = JSONDecodeError
                         then (case literal_eval L s of
                                 Inr d \<Rightarrow> Inr (extract_items L fs d)
                               | Inl e' \<Rightarrow> Inr [])
                         else Inr [])
                | _ \<Rightarrow> Inr (extract_items L fs v)))"

text \<open>
  The first pipeline (\<^verbatim>\<open>src/data_parsing.py\<close>). Its comprehension filters with
  \<^verbatim>\<open>any(item.values())\<close>, which raises \<^verbatim>\<open>AttributeError\<close> on an element that is not a dict;
  the outer \<^verbatim>\<open>except Exception\<close> then returns the empty list. The output values are the
  trimmed strings; \<open>keys\<close> pairs each output key with the input key it is read from. A
  value that is not a string leaves \<^verbatim>\<open>software_list\<close> unbound, which the same handler
  catches.
\<close>

definition any_values :: "pyval \<Rightarrow> bool" where
  "any_values item = list_ex (\<lambda>kv. truthy (snd kv)) (items_of item)"

definition legacy_items ::
  "pylib \<Rightarrow> (string \<times> string) list \<Rightarrow> pyval \<Rightarrow> (string \<times> string) list list" where
  "legacy_items L keys d =
     (case d of
        PList xs \<Rightarrow>
          if list_all is_dict xs
          then map (\<lambda>item. map (\<lambda>(out, k).
                      (out, strip (py_str L (dict_get (items_of item) k (PStr []))))) keys)
                 (filter any_values xs)
          else []
      | _ \<Rightarrow> [])"

definition parse_list_legacy ::
  "pylib \<Rightarrow> (string \<times> string) list \<Rightarrow> pyval \<Rightarrow> pyerr + (string \<times> string) list list" where
  "parse_list_legacy L keys v =
     (case isna_truth L v of
        Inl e \<Rightarrow> Inl e
      | Inr True \<Rightarrow> Inr []
      | Inr False \<Rightarrow>
          (case v of
             PStr s \<Rightarrow>
               (case json_loads L s of
                  Inr d \<Rightarrow> Inr (legacy_items L keys d)
                | Inl e \<Rightarrow>
                    if e = JSONDecodeError
                    then (case literal_eval L s of
                            Inr d \<Rightarrow> Inr (legacy_items L keys d)
                          | Inl e' \<Rightarrow> Inr [])
                    else Inr [])
           | _ \<Rightarrow> Inr []))"

definition parse_software_data_legacy ::
  "pylib \<Rightarrow> pyval \<Rightarrow> pyerr + (string \<times> string) list list" where
  "parse_software_data_legacy L v =
     parse_list_legacy L
       [(''software'', ''name''), (''version'', ''version''), (''vendor'', ''vendor'')] v"

definition parse_vulnerabilities_data_legacy ::
  "pylib \<Rightarrow> pyval \<Rightarrow> pyerr + (string \<times> string) list list" where
  "parse_vulnerabilities_data_legacy L v =
     parse_list_legacy L (map (\<lambda>f. (f, f)) vuln_fields) v"

section \<open>Sample values of the library functions\<close>

text \<open>
  The results of the library functions on the strings that the examples below use:
  a JSON object, the same object as Python prints a dict (single quotes, which
  \<^verbatim>\<open>json.loads\<close> rejects and \<^verbatim>\<open>ast.literal_eval\<close> reads), and two JSON lists. Every
  other string of the examples is rejected by both decoders. \<^verbatim>\<open>pd.isna\<close> of a list
  of two or more elements has no truth value.
\<close>

definition squote :: "string \<Rightarrow> string" where
  "squote w = CHR 0x27 # w @ [CHR 0x27]"

definition dquote :: "string \<Rightarrow> string" where
  "dquote w = CHR 0x22 # w @ [CHR 0x22]"

definition os_json :: string where
  "os_json = ''{'' @ dquote ''name'' @ '': '' @ dquote ''Ubuntu'' @ '', '' @
     dquote ''version'' @ '': '' @ dquote ''22.04'' @ ''}''"

definition os_repr :: string where
  "os_repr = ''{'' @ squote ''name'' @ '': '' @ squote ''Ubuntu'' @ '', '' @
     squote ''version'' @ '': '' @ squote ''22.04'' @ ''}''"

definition os_dict :: pyval where
  "os_dict = PDict [(PStr ''name'', PStr ''Ubuntu''), (PStr ''version'', PStr ''22.04'')]"

definition software_json :: string where
  "software_json = ''[{'' @ dquote ''name'' @ '': '' @ dquote ''nginx'' @ '', '' @
     dquote ''version'' @ '': '' @ dquote '' '' @ ''}, 7]''"

definition software_list :: pyval where
  "software_list =
     PList [PDict [(PStr ''name'', PStr ''nginx''), (PStr ''version'', PStr '' '')], PInt 7]"

definition blank_json :: string where
  "blank_json = ''[{'' @ dquote ''name'' @ '': '' @ dquote ''nginx'' @ ''}, {'' @
     dquote ''name'' @ '': '' @ dquote [] @ ''}]''"

definition blank_list :: pyval where
  "blank_list =
     PList [PDict [(PStr ''name'', PStr ''nginx'')], PDict [(PStr ''name'', PStr [])]]"

definition sample_lib :: pylib where
  "sample_lib =
     \<lparr> json_loads = (\<lambda>s. if s = os_json then Inr os_dict
                         else if s = software_json then Inr software_list
                         else if s = blank_json then Inr blank_list
                         else Inl JSONDecodeError),
       literal_eval = (\<lambda>s. if s = os_repr then Inr os_dict else Inl SyntaxError),
       repr_of = (\<lambda>v. ''<repr>''),
       isna_list = (\<lambda>xs. Inl ValueError),
       next_title = (\<lambda>names t. t @ ''1'') \<rparr>"

section \<open>Tables and the merge\<close>

text \<open>
  A table as \<^verbatim>\<open>pd.read_excel\<close> returns it. The join key \<^verbatim>\<open>fqdn\<close> is a device name: a
  string, or nothing in an empty cell. \<open>col r c\<close> is the value of row \<open>r\<close> in any other
  column \<open>c\<close>; \<open>columns\<close> lists the column names of the table, the key among them.
\<close>

record trow =
  fqdn :: "string option"
  col :: "string \<Rightarrow> pyval"

record dataframe =
  columns :: "string list"
  rows :: "trow list"

definition required_columns :: "string list" where
  "required_columns = [''fqdn'', ''Network Cards'', ''CPU'', ''RAM'', ''Disk Space'']"

definition hw_columns :: "string list" where
  "hw_columns = [''Network Cards'', ''CPU'', ''RAM'', ''Disk Space'']"

text \<open>
  \<^verbatim>\<open>pd.merge(all_data, devices_report[required_columns], on='fqdn', how='left')\<close>: the
  rows of the left table in their order, each once for every right row with its key, with
  the right row's other columns; once, with NaN in those columns, when no right row has
  its key. Empty keys match each other, as pandas joins them. The inventory table is taken
  to have no column with the name of a hardware column.
\<close>

definition merge_row :: "trow \<Rightarrow> trow \<Rightarrow> trow" where
  "merge_row l r = l\<lparr>col := (\<lambda>c. if c \<in> set hw_columns then col r c else col l c)\<rparr>"

definition fill_row :: "trow \<Rightarrow> trow" where
  "fill_row l = l\<lparr>col := (\<lambda>c. if c \<in> set hw_columns then PNaN else col l c)\<rparr>"

definition matches :: "dataframe \<Rightarrow> trow \<Rightarrow> trow list" where
  "matches right l = filter (\<lambda>r. fqdn r = fqdn l) (rows right)"

definition merge_rows :: "dataframe \<Rightarrow> trow \<Rightarrow> trow list" where
  "merge_rows right l =
     (if matches right l = [] then [fill_row l] else map (merge_row l) (matches right l))"

definition left_merge :: "dataframe \<Rightarrow> dataframe \<Rightarrow> dataframe" where
  "left_merge left right =
     \<lparr> columns = columns left @ hw_columns,
       rows = concat (map (merge_rows right) (rows left)) \<rparr>"

section \<open>Worksheets\<close>

text \<open>
  An openpyxl worksheet: its title, the row counter \<^verbatim>\<open>_current_row\<close> (the highest row
  that has a cell), the cell values by (row, column), and the merged ranges as
  (first row, last row, first column, last column). Fonts, fills, widths and hyperlinks are
  left out. Cell values are taken to be ones that openpyxl accepts.
\<close>

record worksheet =
  title :: string
  current_row :: nat
  cells :: "nat \<times> nat \<Rightarrow> pyval option"
  merged_cells :: "(nat \<times> nat \<times> nat \<times> nat) list"

definition new_sheet :: "string \<Rightarrow> worksheet" where
  "new_sheet t = \<lparr> title = t, current_row = 0, cells = (\<lambda>p. None), merged_cells = [] \<rparr>"

text \<open>\<^verbatim>\<open>ws.cell(row=r, column=c, value=v)\<close>: a new cell raises the row counter to its row.\<close>

definition ws_cell :: "worksheet \<Rightarrow> nat \<Rightarrow> nat \<Rightarrow> pyval \<Rightarrow> worksheet" where
  "ws_cell ws r c v =
     ws\<lparr> cells := (cells ws)((r, c) := Some v), current_row := max r (current_row ws) \<rparr>"

text \<open>\<^verbatim>\<open>ws.append(vs)\<close>: the values go to the row after the row counter, from column 1.\<close>

fun put_row :: "(nat \<times> nat \<Rightarrow> pyval option) \<Rightarrow> nat \<Rightarrow> nat \<Rightarrow> pyval list \<Rightarrow>
    (nat \<times> nat \<Rightarrow> pyval option)" where
  "put_row m r c [] = m"
| "put_row m r c (v # vs) = put_row (m((r, c) := Some v)) r (Suc c) vs"

definition ws_append :: "worksheet \<Rightarrow> pyval list \<Rightarrow> worksheet" where
  "ws_append ws vs =
     ws\<lparr> cells := put_row (cells ws) (Suc (current_row ws)) 1 vs,
         current_row := Suc (current_row ws) \<rparr>"

text \<open>
  \<^verbatim>\<open>ws.merge_cells(start_row=r1, end_row=r2, start_column=c1, end_column=c2)\<close>: the range
  is recorded and every cell of it but the top left one loses its value.
\<close>

definition ws_merge_cells :: "worksheet \<Rightarrow> nat \<Rightarrow> nat \<Rightarrow> nat \<Rightarrow> nat \<Rightarrow> worksheet" where
  "ws_merge_cells ws r1 r2 c1 c2 =
     ws\<lparr> cells := (\<lambda>p. if r1 \<le> fst p \<and> fst p \<le> r2 \<and> c1 \<le> snd p \<and> snd p \<le> c2 \<and> p \<noteq> (r1, c1)
                        then Some PNone else cells ws p),
         merged_cells := merged_cells ws @ [(r1, r2, c1, c2)] \<rparr>"

text \<open>The label of the link back to the navigation sheet, in cell A1 (here in English).\<close>

definition back_label :: string where
  "back_label = ''<- Back to navigation''"

definition add_back_to_navigation_link :: "worksheet \<Rightarrow> worksheet" where
  "add_back_to_navigation_link ws = ws_cell ws 1 1 (PStr back_label)"

section \<open>The grouped sheets\<close>

text \<open>
  The table that \<open>create_tenant_sheets\<close> hands to \<open>create_merged_sheet\<close>: one row for each
  item, with the device name and the item's fields. A row built from the empty dict has
  no field. The columns of the pandas table are \<^verbatim>\<open>fqdn\<close> and every field of some row.
\<close>

type_synonym item = "(string \<times> string option) list"

type_synonym sheet_df = "(string option \<times> item) list"

definition key_val :: "string option \<Rightarrow> pyval" where
  "key_val k = (case k of Some s \<Rightarrow> PStr s | None \<Rightarrow> PNaN)"

definition df_has_col :: "sheet_df \<Rightarrow> string \<Rightarrow> bool" where
  "df_has_col df c = (c = ''fqdn'' \<or> list_ex (\<lambda>r. c \<in> fst ` set (snd r)) df)"

text \<open>
  \<^verbatim>\<open>row.get(c)\<close> on a row of that table: \<^verbatim>\<open>None\<close> when the table has no such column, NaN
  where the row has no such field.
\<close>

definition row_get :: "sheet_df \<Rightarrow> string option \<times> item \<Rightarrow> string \<Rightarrow> pyval" where
  "row_get df r c =
     (if c = ''fqdn'' then key_val (fst r)
      else (case map_of (snd r) c of
              Some (Some s) \<Rightarrow> PStr s
            | Some None \<Rightarrow> PNone
            | None \<Rightarrow> if df_has_col df c then PNaN else PNone))"

text \<open>\<^verbatim>\<open>row[c]\<close>: \<^verbatim>\<open>KeyError\<close> when the table has no such column.\<close>

definition row_item :: "sheet_df \<Rightarrow> string option \<times> item \<Rightarrow> string \<Rightarrow> pyerr + pyval" where
  "row_item df r c = (if df_has_col df c then Inr (row_get df r c) else Inl KeyError)"

text \<open>
  \<^verbatim>\<open>df.groupby(['fqdn'])\<close>: the groups in the order of their keys, each with its rows in
  the order of the table; rows without a key are in no group.
\<close>

definition group_keys :: "sheet_df \<Rightarrow> string list" where
  "group_keys df = sort (remdups (concat (map (\<lambda>r. case fst r of Some k \<Rightarrow> [k] | None \<Rightarrow> []) df)))"

definition group_of :: "sheet_df \<Rightarrow> string \<Rightarrow> sheet_df" where
  "group_of df k = filter (\<lambda>r. fst r = Some k) df"

definition groupby :: "sheet_df \<Rightarrow> sheet_df list" where
  "groupby df = map (group_of df) (group_keys df)"

text \<open>
  \<open>create_merged_sheet\<close> of the navigation pipeline (\<^verbatim>\<open>src/unnamed/part_000\<close>); every call
  passes \<^verbatim>\<open>['fqdn']\<close> as \<^verbatim>\<open>id_columns\<close>, so there is one identifier column, column 1. The
  headers are written into row 2 and \<^verbatim>\<open>current_row\<close> starts at 3.
\<close>

fun write_cells :: "worksheet \<Rightarrow> nat \<Rightarrow> nat \<Rightarrow> pyval list \<Rightarrow> worksheet" where
  "write_cells ws r c [] = ws"
| "write_cells ws r c (v # vs) = write_cells (ws_cell ws r c v) r (Suc c) vs"

definition write_group_nav :: "sheet_df \<Rightarrow> string list \<Rightarrow> worksheet \<Rightarrow> sheet_df \<Rightarrow> worksheet" where
  "write_group_nav df data_columns ws g =
     (case g of
        [] \<Rightarrow> ws
      | first_row # others \<Rightarrow>
          foldl (\<lambda>w r. ws_append w (PNone # map (row_get df r) data_columns))
            (ws_append ws (row_get df first_row ''fqdn'' # map (row_get df first_row) data_columns))
            others)"

fun merged_loop_nav ::
  "sheet_df \<Rightarrow> string list \<Rightarrow> worksheet \<Rightarrow> nat \<Rightarrow> sheet_df list \<Rightarrow> worksheet" where
  "merged_loop_nav df data_columns ws cur [] = ws"
| "merged_loop_nav df data_columns ws cur (g # gs) =
     (let ws1 = write_group_nav df data_columns ws g;
          ws2 = (if length g > 1 then ws_merge_cells ws1 cur (cur + length g - 1) 1 1 else ws1)
      in merged_loop_nav df data_columns ws2 (cur + length g) gs)"

definition create_merged_sheet_nav :: "worksheet \<Rightarrow> sheet_df \<Rightarrow> string list \<Rightarrow> worksheet" where
  "create_merged_sheet_nav ws df data_columns =
     (let ws1 = write_cells ws 2 1 (map PStr (''fqdn'' # data_columns))
      in if df = [] then ws1 else merged_loop_nav df data_columns ws1 3 (groupby df))"

text \<open>
  \<open>create_merged_sheet\<close> of the optimised pipeline (\<^verbatim>\<open>src/temp.py\<close>): the headers are
  appended and \<^verbatim>\<open>current_row\<close> starts at 2. A missing column raises \<^verbatim>\<open>KeyError\<close> while
  the values of a row are collected; the handler of the function prints it and the sheet
  stays as it is then.
\<close>

fun map_err :: "('a \<Rightarrow> pyerr + 'b) \<Rightarrow> 'a list \<Rightarrow> pyerr + 'b list" where
  "map_err f [] = Inr []"
| "map_err f (x # xs) =
     (case f x of
        Inl e \<Rightarrow> Inl e
      | Inr y \<Rightarrow> (case map_err f xs of Inl e \<Rightarrow> Inl e | Inr ys \<Rightarrow> Inr (y # ys)))"

fun append_others_opt ::
  "sheet_df \<Rightarrow> string list \<Rightarrow> worksheet \<Rightarrow> sheet_df \<Rightarrow> worksheet \<times> pyerr option" where
  "append_others_opt df data_columns ws [] = (ws, None)"
| "append_others_opt df data_columns ws (r # rs) =
     (case map_err (row_item df r) data_columns of
        Inl e \<Rightarrow> (ws, Some e)
      | Inr vs \<Rightarrow> append_others_opt df data_columns (ws_append ws (PNone # vs)) rs)"

definition write_group_opt ::
  "sheet_df \<Rightarrow> string list \<Rightarrow> worksheet \<Rightarrow> sheet_df \<Rightarrow> worksheet \<times> pyerr option" where
  "write_group_opt df data_columns ws g =
     (case g of
        [] \<Rightarrow> (ws, None)
      | first_row # others \<Rightarrow>
          (case map_err (row_item df first_row) (''fqdn'' # data_columns) of
             Inl e \<Rightarrow> (ws, Some e)
           | Inr vs \<Rightarrow> append_others_opt df data_columns (ws_append ws vs) others))"

fun merged_loop_opt ::
  "sheet_df \<Rightarrow> string list \<Rightarrow> worksheet \<Rightarrow> nat \<Rightarrow> sheet_df list \<Rightarrow> worksheet" where
  "merged_loop_opt df data_columns ws cur [] = ws"
| "merged_loop_opt df data_columns ws cur (g # gs) =
     (case write_group_opt df data_columns ws g of
        (ws1, Some e) \<Rightarrow> ws1
      | (ws1, None) \<Rightarrow>
          (let ws2 = (if length g > 1 then ws_merge_cells ws1 cur (cur + length g - 1) 1 1
                      else ws1)
           in merged_loop_opt df data_columns ws2 (cur + length g) gs))"

definition create_merged_sheet_opt :: "worksheet \<Rightarrow> sheet_df \<Rightarrow> string list \<Rightarrow> worksheet" where
  "create_merged_sheet_opt ws df data_columns =
     (let ws1 = ws_append ws (map PStr (''fqdn'' # data_columns))
      in if df = [] then ws1 else merged_loop_opt df data_columns ws1 2 (groupby df))"

section \<open>The workbook and the sheets of one tenant\<close>

text \<open>
  \<^verbatim>\<open>wb.create_sheet(t)\<close>: openpyxl raises \<^verbatim>\<open>ValueError\<close> for a title with one of the
  characters \<^verbatim>\<open>\ * ? : / [ ]\<close>, and gives the sheet another title when a sheet has this
  title already (compared in lower case). The new sheet is the last one of the workbook;
  \<open>create_sheet_first\<close> is \<^verbatim>\<open>wb.create_sheet(t, 0)\<close>, which puts it first. Every title that
  the pipelines pass is non-empty.
\<close>

definition invalid_title_char :: "char \<Rightarrow> bool" where
  "invalid_title_char c = (c \<in> set (CHR 0x5C # ''*?:/[]''))"

definition sheet_title :: "pylib \<Rightarrow> worksheet list \<Rightarrow> string \<Rightarrow> pyerr + string" where
  "sheet_title L sheets t =
     (if list_ex invalid_title_char t then Inl ValueError
      else if list_ex (\<lambda>n. lower n = lower t) (map title sheets)
           then Inr (next_title L (map title sheets) t)
           else Inr t)"

definition create_sheet :: "pylib \<Rightarrow> worksheet list \<Rightarrow> string \<Rightarrow> pyerr + worksheet list" where
  "create_sheet L sheets t =
     (case sheet_title L sheets t of
        Inl e \<Rightarrow> Inl e
      | Inr t' \<Rightarrow> Inr (sheets @ [new_sheet t']))"

definition create_sheet_first :: "pylib \<Rightarrow> worksheet list \<Rightarrow> string \<Rightarrow> pyerr + worksheet list" where
  "create_sheet_first L sheets t =
     (case sheet_title L sheets t of
        Inl e \<Rightarrow> Inl e
      | Inr t' \<Rightarrow> Inr (new_sheet t' # sheets))"

text \<open>The sheet that was created last is the one the following statements fill.\<close>

definition upd_last :: "(worksheet \<Rightarrow> worksheet) \<Rightarrow> worksheet list \<Rightarrow> worksheet list" where
  "upd_last f sheets = (if sheets = [] then [] else butlast sheets @ [f (last sheets)])"

definition main_columns :: "string list" where
  "main_columns =
     [''fqdn'', ''ipAddresses'', ''CPU'', ''RAM'', ''Disk Space'', ''Network Cards'',
      ''macAddresses'', ''os_parsed'', ''os_version'']"

definition cell_of :: "trow \<Rightarrow> string \<Rightarrow> pyval" where
  "cell_of r c = (if c = ''fqdn'' then key_val (fqdn r) else col r c)"

text \<open>
  \<^verbatim>\<open>dataframe_to_rows(main_data, index=False, header=True)\<close>: the header, with
  \<^verbatim>\<open>os_parsed\<close> renamed to \<^verbatim>\<open>os\<close>, then the rows.
\<close>

definition main_rows :: "dataframe \<Rightarrow> trow list \<Rightarrow> pyval list list" where
  "main_rows md tenant_data =
     (let present = filter (\<lambda>c. c \<in> set (columns md)) main_columns
      in map (\<lambda>c. PStr (if c = ''os_parsed'' then ''os'' else c)) present
         # map (\<lambda>r. map (cell_of r) present) tenant_data)"

text \<open>
  The software part and the vulnerability part of \<open>create_tenant_sheets\<close> in the
  navigation pipeline are the same statements with another column, parser, title and
  field list. A device without items gives one row without fields
  (\<^verbatim>\<open>for item in items or [{}]\<close>). The result carries the exception that left the part.
\<close>

definition item_rows ::
  "(pyval \<Rightarrow> pyerr + item list) \<Rightarrow> string \<Rightarrow> trow \<Rightarrow> pyerr + sheet_df" where
  "item_rows parse c r =
     (case parse (col r c) of
        Inl e \<Rightarrow> Inl e
      | Inr items \<Rightarrow> Inr (map (\<lambda>it. (fqdn r, it)) (if items = [] then [[]] else items)))"

definition list_part_nav ::
  "pylib \<Rightarrow> dataframe \<Rightarrow> trow list \<Rightarrow> string \<Rightarrow> (pyval \<Rightarrow> pyerr + item list) \<Rightarrow>
   string \<Rightarrow> string list \<Rightarrow> worksheet list \<Rightarrow> worksheet list \<times> pyerr option" where
  "list_part_nav L md tenant_data c parse sheet_name data_columns sheets =
     (if c \<notin> set (columns md) then (sheets, None)
      else (case map_err (item_rows parse c) tenant_data of
              Inl e \<Rightarrow> (sheets, Some e)
            | Inr rss \<Rightarrow>
                if concat rss = [] then (sheets, None)
                else (case create_sheet L sheets sheet_name of
                        Inl e \<Rightarrow> (sheets, Some e)
                      | Inr sheets1 \<Rightarrow>
                          (upd_last (\<lambda>ws. create_merged_sheet_nav
                                       (add_back_to_navigation_link ws) (concat rss) data_columns)
                             sheets1, None))))"

text \<open>\<^verbatim>\<open>merged_data[merged_data['tenantName'] == tenant_name]\<close>: the rows of one tenant.\<close>

definition tenant_data_of :: "dataframe \<Rightarrow> pyval \<Rightarrow> trow list" where
  "tenant_data_of md tenant_name = filter (\<lambda>r. col r ''tenantName'' = tenant_name) (rows md)"

text \<open>
  The body of the \<^verbatim>\<open>try\<close> of \<open>create_tenant_sheets\<close> (\<^verbatim>\<open>src/unnamed/part_000\<close>): the
  workbook as the body leaves it, and the exception if one left it. Slicing \<^verbatim>\<open>None\<close>
  raises \<^verbatim>\<open>TypeError\<close>.
\<close>

definition tenant_body ::
  "pylib \<Rightarrow> dataframe \<Rightarrow> pyval \<Rightarrow> worksheet list \<Rightarrow> worksheet list \<times> pyerr option" where
  "tenant_body L md tenant_name sheets =
     (case clean_tenant_name_nav L tenant_name of
        Inl e \<Rightarrow> (sheets, Some e)
      | Inr None \<Rightarrow> (sheets, Some TypeError)
      | Inr (Some clean_name) \<Rightarrow>
          (let prefix = take 25 clean_name;
               tenant_data = tenant_data_of md tenant_name
           in case create_sheet L sheets (prefix @ ''_MAIN'') of
                Inl e \<Rightarrow> (sheets, Some e)
              | Inr sheets1 \<Rightarrow>
                  (let sheets2 = upd_last (\<lambda>ws. foldl ws_append (add_back_to_navigation_link ws)
                                              (main_rows md tenant_data)) sheets1
                   in case list_part_nav L md tenant_data ''software''
                             (parse_software_data_nav L) (prefix @ ''_SOFTWARE'')
                             software_fields sheets2 of
                        (sheets3, Some e) \<Rightarrow> (sheets3, Some e)
                      | (sheets3, None) \<Rightarrow>
                          list_part_nav L md tenant_data ''vulnerabilities''
                            (parse_vulnerabilities_data_nav L) (prefix @ ''_VULNERABILITIES'')
                            vuln_fields sheets3)))"

text \<open>
  The state of a run: the workbook and what the handlers printed, the tenant and the
  exception of each message.
\<close>

record run_state =
  wb :: "worksheet list"
  printed :: "(pyval \<times> pyerr) list"

definition create_tenant_sheets :: "pylib \<Rightarrow> dataframe \<Rightarrow> run_state \<Rightarrow> pyval \<Rightarrow> run_state" where
  "create_tenant_sheets L md st tenant_name =
     (case tenant_body L md tenant_name (wb st) of
        (sheets, None) \<Rightarrow> st\<lparr>wb := sheets\<rparr>
      | (sheets, Some e) \<Rightarrow> st\<lparr>wb := sheets, printed := printed st @ [(tenant_name, e)]\<rparr>)"

text \<open>The loop of \<open>process_data\<close> over the tenants.\<close>

definition render_tenants :: "pylib \<Rightarrow> dataframe \<Rightarrow> run_state \<Rightarrow> pyval list \<Rightarrow> run_state" where
  "render_tenants L md st tenants = foldl (create_tenant_sheets L md) st tenants"

section \<open>The navigation sheet and the whole run\<close>

definition nav_title :: string where
  "nav_title = ''NAVIGATION''"

definition sheet_types :: "string list" where
  "sheet_types = [''MAIN'', ''SOFTWARE'', ''VULNERABILITIES'']"

text \<open>The link cells of one row: column 2, 3 and 4, where the sheet exists.\<close>

fun link_cells :: "string list \<Rightarrow> string \<Rightarrow> worksheet \<Rightarrow> nat \<Rightarrow> nat \<Rightarrow> string list \<Rightarrow> worksheet" where
  "link_cells names prefix ws r c [] = ws"
| "link_cells names prefix ws r c (t # ts) =
     link_cells names prefix
       (if prefix @ ''_'' @ t \<in> set names then ws_cell ws r c (PStr ''Go'') else ws)
       r (Suc c) ts"

fun nav_rows :: "pylib \<Rightarrow> string list \<Rightarrow> worksheet \<Rightarrow> nat \<Rightarrow> pyval list \<Rightarrow> pyerr + worksheet" where
  "nav_rows L names ws r [] = Inr ws"
| "nav_rows L names ws r (tenant # tenants) =
     (case clean_tenant_name_nav L tenant of
        Inl e \<Rightarrow> Inl e
      | Inr None \<Rightarrow> Inl TypeError
      | Inr (Some clean_name) \<Rightarrow>
          nav_rows L names
            (link_cells names (take 25 clean_name) (ws_cell ws r 1 (PStr clean_name)) r 2
               sheet_types)
            (Suc r) tenants)"

text \<open>
  \<open>create_navigation_sheet\<close>: the sheet is created first in the workbook, so its own title
  is among the sheet names that the rows look up. The title and the texts are in English
  here.
\<close>

definition create_navigation_sheet ::
  "pylib \<Rightarrow> worksheet list \<Rightarrow> pyval list \<Rightarrow> pyerr + worksheet list" where
  "create_navigation_sheet L sheets tenants =
     (case create_sheet_first L sheets nav_title of
        Inl e \<Rightarrow> Inl e
      | Inr sheets1 \<Rightarrow>
          (let ws0 = write_cells (ws_cell (hd sheets1) 1 1 (PStr ''REPORT NAVIGATION'')) 2 1
                       (map PStr [''Tenant Name'', ''Main Data'', ''Software'', ''Vulnerabilities''])
           in case nav_rows L (map title sheets1) ws0 3 tenants of
                Inl e \<Rightarrow> Inl e
              | Inr ws \<Rightarrow> Inr (ws # tl sheets1)))"

text \<open>\<^verbatim>\<open>Series.unique()\<close>: the values in the order of their first occurrence.\<close>

definition unique :: "'a list \<Rightarrow> 'a list" where
  "unique xs = rev (remdups (rev xs))"

text \<open>
  \<^verbatim>\<open>pd.notna\<close> on a value of the cleaned tenant column, which is \<^verbatim>\<open>None\<close> or a string.
\<close>

fun pd_notna :: "pyval \<Rightarrow> bool" where
  "pd_notna PNone = False"
| "pd_notna PNaN = False"
| "pd_notna v = True"

text \<open>\<^verbatim>\<open>[t for t in merged_data['tenantName'].unique() if pd.notna(t)]\<close>, in both pipelines.\<close>

definition tenants_of :: "dataframe \<Rightarrow> pyval list" where
  "tenants_of md = filter pd_notna (unique (map (\<lambda>r. col r ''tenantName'') (rows md)))"

definition opt_val :: "string option \<Rightarrow> pyval" where
  "opt_val x = (case x of None \<Rightarrow> PNone | Some s \<Rightarrow> PStr s)"

text \<open>\<^verbatim>\<open>merged_data['tenantName'].apply(clean_tenant_name)\<close>, written back to the column.\<close>

definition clean_row :: "pylib \<Rightarrow> trow \<Rightarrow> pyerr + trow" where
  "clean_row L r =
     (case clean_tenant_name_nav L (col r ''tenantName'') of
        Inl e \<Rightarrow> Inl e
      | Inr n \<Rightarrow> Inr (r\<lparr>col := (col r)(''tenantName'' := opt_val n)\<rparr>))"

text \<open>The two new columns \<^verbatim>\<open>os_parsed\<close> and \<^verbatim>\<open>os_version\<close>.\<close>

definition os_row :: "pylib \<Rightarrow> trow \<Rightarrow> pyerr + trow" where
  "os_row L r =
     (case parse_os_data_nav L (col r ''os'') of
        Inl e \<Rightarrow> Inl e
      | Inr (n, v) \<Rightarrow>
          Inr (r\<lparr>col := (col r)(''os_parsed'' := opt_val n, ''os_version'' := opt_val v)\<rparr>))"

text \<open>
  \<open>process_data\<close> of the navigation pipeline (\<^verbatim>\<open>src/unnamed/part_000\<close>), from the two
  tables to the workbook that is saved. An exception of the function is \<open>Inl\<close>; the run
  writes no file then.
\<close>

definition process_data :: "pylib \<Rightarrow> dataframe \<Rightarrow> dataframe \<Rightarrow> pyerr + run_state" where
  "process_data L all_data devices_report =
     (if filter (\<lambda>c. c \<notin> set (columns devices_report)) required_columns \<noteq> [] then Inl Exception
      else if ''fqdn'' \<notin> set (columns all_data) then Inl KeyError
      else
        (let merged = left_merge all_data devices_report
         in case (if ''tenantName'' \<in> set (columns merged)
                  then map_err (clean_row L) (rows merged) else Inr (rows merged)) of
              Inl e \<Rightarrow> Inl e
            | Inr rows1 \<Rightarrow>
                (case (if ''os'' \<in> set (columns merged)
                       then map_err (os_row L) rows1 else Inr rows1) of
                   Inl e \<Rightarrow> Inl e
                 | Inr rows2 \<Rightarrow>
                     (let md = \<lparr> columns = columns merged @
                                   (if ''os'' \<in> set (columns merged)
                                    then [''os_parsed'', ''os_version''] else []),
                                 rows = rows2 \<rparr>
                      in if ''tenantName'' \<notin> set (columns md) then Inl Exception
                         else
                           (let tenants = tenants_of md;
                                st = render_tenants L md \<lparr> wb = [], printed = [] \<rparr> tenants
                            in case create_navigation_sheet L (wb st) tenants of
                                 Inl e \<Rightarrow> Inl e
                               | Inr sheets \<Rightarrow> Inr (st\<lparr>wb := sheets\<rparr>))))))"

section \<open>What the specification expects of the list parsers\<close>

text \<open>
  The expected value of a sub-field, in the words of the specification: null when the
  mapping has no such key or the value trims to the empty string, the trimmed value
  otherwise. \<open>trimmed_field\<close> is the value the first pipeline stores: the trimmed string,
  empty for a missing key.
\<close>

definition expected_field :: "pylib \<Rightarrow> pyval \<Rightarrow> string \<Rightarrow> string option" where
  "expected_field L item f =
     (case map_of (items_of item) (PStr f) of
        None \<Rightarrow> None
      | Some v \<Rightarrow> if strip (py_str L v) = [] then None else Some (strip (py_str L v)))"

definition trimmed_field :: "pylib \<Rightarrow> pyval \<Rightarrow> string \<Rightarrow> string" where
  "trimmed_field L item f =
     (case map_of (items_of item) (PStr f) of
        None \<Rightarrow> []
      | Some v \<Rightarrow> strip (py_str L v))"

fun elements :: "pyval \<Rightarrow> pyval list" where
  "elements (PList xs) = xs"
| "elements v = []"

text \<open>The merged table without the records whose cleaned tenant name is null.\<close>

definition without_null_tenants :: "dataframe \<Rightarrow> dataframe" where
  "without_null_tenants md =
     md\<lparr>rows := filter (\<lambda>r. pd_notna (col r ''tenantName'')) (rows md)\<rparr>"

section \<open>What the specification expects of a grouped sheet\<close>

text \<open>
  The lines of one group, in the words of the specification: one line for each row of the
  group, the first with the device name in the first cell and the others with nothing
  there. \<open>merge_ranges r gs\<close> are the merged ranges when the lines of the groups \<open>gs\<close>
  start at row \<open>r\<close>: for each group of more than one row, the first column over exactly
  the rows of the group.
\<close>

definition group_lines :: "sheet_df \<Rightarrow> string list \<Rightarrow> sheet_df \<Rightarrow> pyval list list" where
  "group_lines df data_columns g =
     (case g of
        [] \<Rightarrow> []
      | first_row # others \<Rightarrow>
          (key_val (fst first_row) # map (row_get df first_row) data_columns)
          # map (\<lambda>r. PNone # map (row_get df r) data_columns) others)"

fun merge_ranges :: "nat \<Rightarrow> sheet_df list \<Rightarrow> (nat \<times> nat \<times> nat \<times> nat) list" where
  "merge_ranges r [] = []"
| "merge_ranges r (g # gs) =
     (if length g > 1 then [(r, r + length g - 1, 1, 1)] else []) @
     merge_ranges (r + length g) gs"

section \<open>Sample tables\<close>

text \<open>
  An inventory of five devices and a hardware table with a row for two of them. The tenant
  of the second device is nothing but a bracketed annotation, the tenant name of the third
  has a character that no sheet title may have, the fourth device has no tenant.
\<close>

definition mk_row :: "string \<Rightarrow> (string \<times> pyval) list \<Rightarrow> trow" where
  "mk_row k kvs =
     \<lparr> fqdn = Some k, col = (\<lambda>c. case map_of kvs c of Some v \<Rightarrow> v | None \<Rightarrow> PNaN) \<rparr>"

definition sample_inventory :: dataframe where
  "sample_inventory =
     \<lparr> columns = [''fqdn'', ''tenantName'', ''software''],
       rows = [mk_row ''host1'' [(''tenantName'', PStr ''[TEST] Corp''),
                                 (''software'', PStr software_json)],
               mk_row ''host2'' [(''tenantName'', PStr ''[EXPIRED]'')],
               mk_row ''host3'' [(''tenantName'', PStr ''A/B'')],
               mk_row ''host4'' [],
               mk_row ''host5'' [(''tenantName'', PStr ''Corp'')]] \<rparr>"

definition sample_hardware :: dataframe where
  "sample_hardware =
     \<lparr> columns = required_columns,
       rows = [mk_row ''host1'' [(''CPU'', PInt 4)], mk_row ''host2'' [(''CPU'', PInt 8)]] \<rparr>"

definition expired_inventory :: dataframe where
  "expired_inventory =
     \<lparr> columns = [''fqdn'', ''tenantName''],
       rows = [mk_row ''host2'' [(''tenantName'', PStr ''[EXPIRED]'')]] \<rparr>"

text \<open>The sheet titles of a finished run, and a cell of its sheet number \<open>i\<close>.\<close>

definition result_titles :: "pyerr + run_state \<Rightarrow> string list" where
  "result_titles res = (case res of Inl e \<Rightarrow> [] | Inr st \<Rightarrow> map title (wb st))"

definition result_cell :: "pyerr + run_state \<Rightarrow> nat \<Rightarrow> nat \<times> nat \<Rightarrow> pyval option" where
  "result_cell res i p = (case res of Inl e \<Rightarrow> None | Inr st \<Rightarrow> cells (wb st ! i) p)"

text \<open>A table of software rows: one device with two items and one with a single item.\<close>

definition sample_software :: sheet_df where
  "sample_software =
     [(Some ''host'', [(''name'', Some ''nginx'')]),
      (Some ''host'', [(''name'', Some ''bash'')]),
      (Some ''alpha'', [(''name'', Some ''curl'')])]"

text \<open>The two devices of the inventory that have a hardware row.\<close>

definition matched_inventory :: dataframe where
  "matched_inventory =
     \<lparr> columns = [''fqdn'', ''tenantName''],
       rows = [mk_row ''host1'' [(''tenantName'', PStr ''[TEST] Corp'')],
               mk_row ''host2'' [(''tenantName'', PStr ''[EXPIRED]'')]] \<rparr>"

text \<open>The rows of the sample inventory with the cleaned tenant names.\<close>

definition cleaned_sample :: dataframe where
  "cleaned_sample =
     \<lparr> columns = [''fqdn'', ''tenantName'', ''software''],
       rows = [mk_row ''host1'' [(''tenantName'', PStr ''Corp''),
                                 (''software'', PStr software_json)],
               mk_row ''host2'' [(''tenantName'', PStr [])],
               mk_row ''host3'' [(''tenantName'', PStr ''A/B'')],
               mk_row ''host4'' [(''tenantName'', PNone)],
               mk_row ''host5'' [(''tenantName'', PStr ''Corp'')]] \<rparr>"

text \<open>Three devices of three tenants, with cleaned names; two of the names cannot be in a sheet title.\<close>

definition three_tenants :: dataframe where
  "three_tenants =
     \<lparr> columns = [''fqdn'', ''tenantName''],
       rows = [mk_row ''host3'' [(''tenantName'', PStr ''A/B'')],
               mk_row ''host5'' [(''tenantName'', PStr ''Corp'')],
               mk_row ''host6'' [(''tenantName'', PStr ''C:D'')]] \<rparr>"

section \<open>Facts about the string methods\<close>

lemma strip_Nil: "strip [] = []"
  by (simp add: strip_def)

lemma rsplit1_no_space: "CHR '' '' \<notin> set s \<Longrightarrow> rsplit1 s = [s]"
  by (simp add: rsplit1_def)

lemma rsplit1_last_space:
  assumes "CHR '' '' \<notin> set b"
  shows "rsplit1 (a @ CHR '' '' # b) = [a, b]"
proof -
  let ?P = "\<lambda>c. c \<noteq> CHR '' ''"
  have all: "\<And>c. c \<in> set (rev b) \<Longrightarrow> ?P c"
    using assms by auto
  have "takeWhile ?P (rev b @ CHR '' '' # rev a) = rev b @ takeWhile ?P (CHR '' '' # rev a)"
    by (rule takeWhile_append2) (rule all)
  then have tw: "takeWhile ?P (rev b @ CHR '' '' # rev a) = rev b"
    by simp
  have "dropWhile ?P (rev b @ CHR '' '' # rev a) = dropWhile ?P (CHR '' '' # rev a)"
    by (rule dropWhile_append2) (rule all)
  then have dw: "dropWhile ?P (rev b @ CHR '' '' # rev a) = CHR '' '' # rev a"
    by simp
  show ?thesis
    by (simp add: rsplit1_def tw dw)
qed

lemma split_pair_no_space: "CHR '' '' \<notin> set s \<Longrightarrow> split_pair s = (Some s, None)"
  by (simp add: split_pair_def rsplit1_no_space)

lemma split_pair_last_space:
  "CHR '' '' \<notin> set b \<Longrightarrow> split_pair (a @ CHR '' '' # b) = (Some a, Some b)"
  by (simp add: split_pair_def rsplit1_last_space)

lemma has_markers_nonempty: "has_markers s \<Longrightarrow> s \<noteq> []"
  by (auto simp add: has_markers_def lower_def)

text \<open>
  A sub-field is \<open>None\<close> when the key is missing or its value trims to the empty string, and
  the trimmed string form of the value otherwise.
\<close>

lemma field_or_none_eq:
  "field_or_none L kvs k =
     (case map_of kvs (PStr k) of
        None \<Rightarrow> None
      | Some v \<Rightarrow> if strip (py_str L v) = [] then None else Some (strip (py_str L v)))"
  by (simp add: field_or_none_def dict_get_def strip_Nil Let_def split: option.splits)

section \<open>The operating-system field in the navigation pipeline\<close>

lemma parse_os_data_nav_no_space:
  "s \<noteq> [] \<Longrightarrow> \<not> has_markers s \<Longrightarrow> CHR '' '' \<notin> set s \<Longrightarrow>
   parse_os_data_nav L (PStr s) = Inr (Some s, None)"
  by (simp add: parse_os_data_nav_def split_pair_no_space)

lemma parse_os_data_nav_last_space:
  "\<not> has_markers (a @ CHR '' '' # b) \<Longrightarrow> CHR '' '' \<notin> set b \<Longrightarrow>
   parse_os_data_nav L (PStr (a @ CHR '' '' # b)) = Inr (Some a, Some b)"
  by (simp add: parse_os_data_nav_def split_pair_last_space)

lemma parse_os_data_nav_structured:
  assumes "has_markers s"
    and "json_loads L s = Inr (PDict kvs) \<or>
         (json_loads L s = Inl JSONDecodeError \<and> literal_eval L s = Inr (PDict kvs))"
  shows "parse_os_data_nav L (PStr s) =
           Inr (field_or_none L kvs ''name'', field_or_none L kvs ''version'')"
  using assms has_markers_nonempty [of s]
  by (auto simp add: parse_os_data_nav_def os_fields_def)

lemma parse_os_data_nav_both_fail:
  assumes "has_markers s"
    and "json_loads L s = Inl JSONDecodeError" and "literal_eval L s = Inl e"
  shows "parse_os_data_nav L (PStr s) = Inr (Some s, None)"
  using assms has_markers_nonempty [of s]
  by (simp add: parse_os_data_nav_def)

lemma parse_os_data_opt_no_space:
  "s \<noteq> [] \<Longrightarrow> \<not> has_markers s \<Longrightarrow> CHR '' '' \<notin> set s \<Longrightarrow>
   parse_os_data_opt L (PStr s) = Inr (Some s, None)"
  by (simp add: parse_os_data_opt_def split_pair_no_space)

lemma parse_os_data_opt_last_space:
  "\<not> has_markers (a @ CHR '' '' # b) \<Longrightarrow> CHR '' '' \<notin> set b \<Longrightarrow>
   parse_os_data_opt L (PStr (a @ CHR '' '' # b)) = Inr (Some a, Some b)"
  by (simp add: parse_os_data_opt_def split_pair_last_space)

section \<open>Claims about the parsers\<close>

text \<open>
  C1. For a string without the markers both pipelines split at the last space, and the
  navigation pipeline returns the sub-fields of a string that either decoder reads as a dict
  (the lemmas above). The optimised pipeline does not: a string that starts with a brace
  goes to the JSON decoder only, so a dict in Python notation, which only the literal
  decoder reads, comes back as the raw string with no version, where the navigation pipeline
  returns its sub-fields.
\<close>

theorem parse_os_data_opt_skips_literal_fallback:
  assumes "has_markers s" and "startswith s ''{''"
    and "json_loads L s = Inl JSONDecodeError"
    and "literal_eval L s = Inr (PDict kvs)"
  shows "parse_os_data_opt L (PStr s) = Inr (Some s, None) \<and>
         parse_os_data_nav L (PStr s) =
           Inr (field_or_none L kvs ''name'', field_or_none L kvs ''version'')"
proof
  show "parse_os_data_opt L (PStr s) = Inr (Some s, None)"
    using assms has_markers_nonempty [of s]
    by (simp add: parse_os_data_opt_def)
  show "parse_os_data_nav L (PStr s) =
          Inr (field_or_none L kvs ''name'', field_or_none L kvs ''version'')"
    using assms by (simp add: parse_os_data_nav_structured)
qed

theorem parse_os_data_opt_skips_literal_fallback_witness:
  "has_markers os_repr \<and> startswith os_repr ''{'' \<and>
   json_loads sample_lib os_repr = Inl JSONDecodeError \<and>
   literal_eval sample_lib os_repr = Inr os_dict \<and>
   parse_os_data_opt sample_lib (PStr os_repr) = Inr (Some os_repr, None) \<and>
   parse_os_data_nav sample_lib (PStr os_repr) = Inr (Some ''Ubuntu'', Some ''22.04'')"
proof -
  have h1: "has_markers os_repr" by code_simp
  have h2: "startswith os_repr ''{''" by code_simp
  have h3: "json_loads sample_lib os_repr = Inl JSONDecodeError" by code_simp
  have h4: "literal_eval sample_lib os_repr =
              Inr (PDict [(PStr ''name'', PStr ''Ubuntu''), (PStr ''version'', PStr ''22.04'')])"
    by code_simp
  have f1: "field_or_none sample_lib
              [(PStr ''name'', PStr ''Ubuntu''), (PStr ''version'', PStr ''22.04'')] ''name''
            = Some ''Ubuntu''"
    by code_simp
  have f2: "field_or_none sample_lib
              [(PStr ''name'', PStr ''Ubuntu''), (PStr ''version'', PStr ''22.04'')] ''version''
            = Some ''22.04''"
    by code_simp
  show ?thesis
    using parse_os_data_opt_skips_literal_fallback [OF h1 h2 h3 h4] h1 h2 h3 h4
    by (simp add: f1 f2 os_dict_def)
qed

text \<open>
  C2. When the JSON decoder and the literal decoder both raise on a string, the list
  parser of the optimised pipeline and the two of the first pipeline return the empty list;
  no exception leaves them. The parsers of the navigation pipeline do the same when the
  first exception is the decode error.
\<close>

theorem list_parsers_empty_on_decode_failure:
  assumes "json_loads L s = Inl e1" and "literal_eval L s = Inl e2"
  shows "parse_json_data L (PStr s) fs = Inr [] \<and>
         parse_software_data_legacy L (PStr s) = Inr [] \<and>
         parse_vulnerabilities_data_legacy L (PStr s) = Inr [] \<and>
         (e1 = JSONDecodeError \<longrightarrow>
            parse_software_data_nav L (PStr s) = Inr [] \<and>
            parse_vulnerabilities_data_nav L (PStr s) = Inr [])"
  using assms
  by (auto simp add: parse_json_data_def parse_software_data_legacy_def
      parse_vulnerabilities_data_legacy_def parse_list_legacy_def
      parse_software_data_nav_def parse_vulnerabilities_data_nav_def parse_list_nav_def)

theorem list_parsers_empty_on_decode_failure_witness:
  "json_loads sample_lib ''not a list'' = Inl JSONDecodeError \<and>
   literal_eval sample_lib ''not a list'' = Inl SyntaxError \<and>
   parse_json_data sample_lib (PStr ''not a list'') software_fields = Inr [] \<and>
   parse_software_data_legacy sample_lib (PStr ''not a list'') = Inr [] \<and>
   parse_vulnerabilities_data_legacy sample_lib (PStr ''not a list'') = Inr [] \<and>
   parse_software_data_nav sample_lib (PStr ''not a list'') = Inr [] \<and>
   parse_vulnerabilities_data_nav sample_lib (PStr ''not a list'') = Inr []"
proof -
  have h1: "json_loads sample_lib ''not a list'' = Inl JSONDecodeError" by code_simp
  have h2: "literal_eval sample_lib ''not a list'' = Inl SyntaxError" by code_simp
  show ?thesis
    using list_parsers_empty_on_decode_failure [OF h1 h2, of software_fields] h1 h2
    by simp
qed

text \<open>
  C3. The first pipeline (\<^verbatim>\<open>src/data_parsing.py\<close>) does not keep every mapping: of the two
  mappings of this list it drops the one whose values are all empty, and the missing
  sub-fields of the one it keeps are empty strings, not null.
\<close>

theorem legacy_parser_drops_blank_mapping:
  "json_loads sample_lib blank_json = Inr blank_list \<and>
   length (filter is_dict (elements blank_list)) = 2 \<and>
   parse_software_data_legacy sample_lib (PStr blank_json) =
     Inr [[(''software'', ''nginx''), (''version'', []), (''vendor'', [])]]"
  by code_simp

text \<open>
  C3, amended. In the navigation and the optimised pipeline, a field that decodes to a list
  (by the JSON decoder, or by the literal decoder after a decode error) gives one record
  for each element that is a mapping, in their order, and none for the other elements; each
  expected sub-field of a record is null when the mapping has no such key or the string
  form of its value trims to the empty string, and is the trimmed string otherwise. In the
  first pipeline a list of mappings gives one record for each mapping that has a true value,
  with the trimmed strings themselves.
\<close>

theorem list_parsers_keep_mappings:
  assumes "s \<noteq> []"
    and "json_loads L s = Inr (PList xs) \<or>
         (json_loads L s = Inl JSONDecodeError \<and> literal_eval L s = Inr (PList xs))"
  shows "parse_json_data L (PStr s) fs =
           Inr (map (\<lambda>item. map (\<lambda>f. (f, expected_field L item f)) fs) (filter is_dict xs)) \<and>
         parse_software_data_nav L (PStr s) =
           Inr (map (\<lambda>item. map (\<lambda>f. (f, expected_field L item f)) software_fields)
                  (filter is_dict xs)) \<and>
         parse_vulnerabilities_data_nav L (PStr s) =
           Inr (map (\<lambda>item. map (\<lambda>f. (f, expected_field L item f)) vuln_fields)
                  (filter is_dict xs)) \<and>
         (list_all is_dict xs \<longrightarrow>
            parse_software_data_legacy L (PStr s) =
              Inr (map (\<lambda>item. [(''software'', trimmed_field L item ''name''),
                                 (''version'', trimmed_field L item ''version''),
                                 (''vendor'', trimmed_field L item ''vendor'')])
                     (filter any_values xs)))"
proof -
  have ex: "extract_items L gs (PList xs) =
              map (\<lambda>item. map (\<lambda>f. (f, expected_field L item f)) gs) (filter is_dict xs)" for gs
    by (simp add: extract_items_def expected_field_def field_or_none_eq)
  have leg: "list_all is_dict xs \<Longrightarrow>
             legacy_items L [(''software'', ''name''), (''version'', ''version''),
                             (''vendor'', ''vendor'')] (PList xs) =
               map (\<lambda>item. [(''software'', trimmed_field L item ''name''),
                             (''version'', trimmed_field L item ''version''),
                             (''vendor'', trimmed_field L item ''vendor'')])
                 (filter any_values xs)"
    by (simp add: legacy_items_def trimmed_field_def dict_get_def strip_Nil
        split: option.splits)
  from assms(2) show ?thesis
  proof
    assume "json_loads L s = Inr (PList xs)"
    then show ?thesis
      using assms(1) ex leg
      by (simp add: parse_json_data_def parse_software_data_nav_def
          parse_vulnerabilities_data_nav_def parse_list_nav_def
          parse_software_data_legacy_def parse_list_legacy_def)
  next
    assume "json_loads L s = Inl JSONDecodeError \<and> literal_eval L s = Inr (PList xs)"
    then show ?thesis
      using assms(1) ex leg
      by (simp add: parse_json_data_def parse_software_data_nav_def
          parse_vulnerabilities_data_nav_def parse_list_nav_def
          parse_software_data_legacy_def parse_list_legacy_def)
  qed
qed

theorem list_parsers_keep_mappings_witness:
  "software_json \<noteq> [] \<and>
   json_loads sample_lib software_json = Inr software_list \<and>
   parse_json_data sample_lib (PStr software_json) software_fields =
     Inr [[(''name'', Some ''nginx''), (''version'', None), (''vendor'', None)]] \<and>
   parse_software_data_nav sample_lib (PStr software_json) =
     Inr [[(''name'', Some ''nginx''), (''version'', None), (''vendor'', None)]] \<and>
   \<not> list_all is_dict (elements software_list) \<and>
   json_loads sample_lib blank_json = Inr blank_list \<and>
   list_all is_dict (elements blank_list) \<and>
   parse_software_data_legacy sample_lib (PStr blank_json) =
     Inr [[(''software'', ''nginx''), (''version'', []), (''vendor'', [])]]"
proof -
  let ?xs = "[PDict [(PStr ''name'', PStr ''nginx''), (PStr ''version'', PStr '' '')], PInt 7]"
  let ?ys = "[PDict [(PStr ''name'', PStr ''nginx'')], PDict [(PStr ''name'', PStr [])]]"
  have h1: "software_json \<noteq> []" by code_simp
  have h2: "json_loads sample_lib software_json = Inr (PList ?xs)" by code_simp
  have h3: "blank_json \<noteq> []" by code_simp
  have h4: "json_loads sample_lib blank_json = Inr (PList ?ys)" by code_simp
  have e1: "map (\<lambda>item. map (\<lambda>f. (f, expected_field sample_lib item f)) software_fields)
              (filter is_dict ?xs)
            = [[(''name'', Some ''nginx''), (''version'', None), (''vendor'', None)]]"
    by code_simp
  have e2: "map (\<lambda>item. [(''software'', trimmed_field sample_lib item ''name''),
                          (''version'', trimmed_field sample_lib item ''version''),
                          (''vendor'', trimmed_field sample_lib item ''vendor'')])
              (filter any_values ?ys)
            = [[(''software'', ''nginx''), (''version'', []), (''vendor'', [])]]"
    by code_simp
  have a1: "\<not> list_all is_dict (elements software_list)" by code_simp
  have a2: "list_all is_dict ?ys" by code_simp
  have a3: "list_all is_dict (elements blank_list)" by code_simp
  note t1 = list_parsers_keep_mappings [OF h1 disjI1 [OF h2], of software_fields, unfolded e1]
  note t2 = list_parsers_keep_mappings [OF h3 disjI1 [OF h4], of software_fields, unfolded e2]
  have r1: "parse_json_data sample_lib (PStr software_json) software_fields =
              Inr [[(''name'', Some ''nginx''), (''version'', None), (''vendor'', None)]]"
    using t1 by (rule conjunct1)
  have r2: "parse_software_data_nav sample_lib (PStr software_json) =
              Inr [[(''name'', Some ''nginx''), (''version'', None), (''vendor'', None)]]"
    using t1 by blast
  have r3: "parse_software_data_legacy sample_lib (PStr blank_json) =
              Inr [[(''software'', ''nginx''), (''version'', []), (''vendor'', [])]]"
    using t2 a2 by blast
  have j1: "json_loads sample_lib software_json = Inr software_list"
    using h2 by (simp add: software_list_def)
  have j2: "json_loads sample_lib blank_json = Inr blank_list"
    using h4 by (simp add: blank_list_def)
  show ?thesis
    using h1 j1 r1 r2 a1 j2 a3 r3 by blast
qed

text \<open>
  C4. In the navigation pipeline the cleaned name of \<^verbatim>\<open>Acme [LEGACY] Corp\<close> is
  \<^verbatim>\<open>Acme Corp\<close>. The optimised pipeline removes the bracketed span and trims the ends, and
  leaves the two spaces that the span stood between.
\<close>

theorem clean_tenant_name_opt_keeps_inner_spaces:
  "clean_tenant_name_opt L (PStr ''Acme [LEGACY] Corp'') = Inr (Some ''Acme  Corp'')"
  by (simp add: clean_tenant_name_opt_def strip_def py_isspace_def)

text \<open>
  C9. The two pipelines do not return the same results: they clean the tenant name
  \<^verbatim>\<open>Acme [LEGACY] Corp\<close> differently, and for the operating-system value \<^verbatim>\<open>False\<close> one
  returns its string form and the other no name at all.
\<close>

theorem pipelines_disagree:
  "clean_tenant_name_nav L (PStr ''Acme [LEGACY] Corp'') = Inr (Some ''Acme Corp'') \<and>
   clean_tenant_name_opt L (PStr ''Acme [LEGACY] Corp'') = Inr (Some ''Acme  Corp'') \<and>
   parse_os_data_nav L (PBool False) = Inr (Some ''False'', None) \<and>
   parse_os_data_opt L (PBool False) = Inr (None, None)"
  by (simp add: clean_tenant_name_nav_def clean_tenant_name_opt_def strip_def py_isspace_def
      split_def parse_os_data_nav_def parse_os_data_opt_def os_fields_def)

text \<open>
  C10. The number 0 is not null, not a string and not a mapping, and the optimised
  pipeline returns no name for it.
\<close>

theorem parse_os_data_opt_zero:
  "isna_truth sample_lib (PInt 0) = Inr False \<and> \<not> is_str (PInt 0) \<and> \<not> is_dict (PInt 0) \<and>
   parse_os_data_opt sample_lib (PInt 0) = Inr (None, None) \<and>
   parse_os_data_opt sample_lib (PInt 0) \<noteq> Inr (Some (py_str sample_lib (PInt 0)), None)"
  by (simp add: parse_os_data_opt_def)

text \<open>
  C10, amended. For a value that is not null, not a string and not a mapping, the
  navigation pipeline returns its string form as the name and no version; the optimised
  pipeline returns the same when the value is true, and neither name nor version when it
  is false (the number zero, \<^verbatim>\<open>False\<close>).
\<close>

theorem parse_os_data_non_string:
  assumes "isna_truth L v = Inr False" and "\<not> is_str v" and "\<not> is_dict v"
  shows "parse_os_data_nav L v = Inr (Some (py_str L v), None) \<and>
         parse_os_data_opt L v =
           Inr (if truthy v then (Some (py_str L v), None) else (None, None))"
  using assms
  by (cases v) (simp_all add: parse_os_data_nav_def parse_os_data_opt_def os_fields_def)

theorem parse_os_data_non_string_witness:
  "isna_truth sample_lib (PInt 2019) = Inr False \<and> \<not> is_str (PInt 2019) \<and>
   \<not> is_dict (PInt 2019) \<and>
   parse_os_data_nav sample_lib (PInt 2019) = Inr (Some ''2019'', None) \<and>
   parse_os_data_opt sample_lib (PInt 2019) = Inr (Some ''2019'', None)"
proof -
  have h1: "isna_truth sample_lib (PInt 2019) = Inr False" by simp
  have h2: "\<not> is_str (PInt 2019)" by simp
  have h3: "\<not> is_dict (PInt 2019)" by simp
  have s: "show_int 2019 = ''2019''" by code_simp
  show ?thesis
    using parse_os_data_non_string [OF h1 h2 h3] by (simp add: s)
qed

section \<open>Claims about the merge and the tenants\<close>

lemma concat_singletons:
  "\<forall>x \<in> set xs. f x = [g x] \<Longrightarrow> concat (map f xs) = map g xs"
  by (induction xs) auto

lemma merge_rows_one_match:
  assumes "length (matches right l) = 1"
  shows "merge_rows right l = [merge_row l (hd (matches right l))]"
proof -
  from assms obtain r where "matches right l = [r]"
    by (cases "matches right l") auto
  then show ?thesis
    by (simp add: merge_rows_def)
qed

lemma merge_rows_keep:
  "m \<in> set (merge_rows right l) \<Longrightarrow>
   fqdn m = fqdn l \<and> (\<forall>c. c \<notin> set hw_columns \<longrightarrow> col m c = col l c)"
  by (auto simp add: merge_rows_def merge_row_def fill_row_def split: if_splits)

lemma merge_rows_nonempty: "merge_rows right l \<noteq> []"
  by (simp add: merge_rows_def)

text \<open>
  C6. When the hardware table has exactly one row for the key of every inventory row, the
  merged table has as many rows as the inventory, and its row \<open>i\<close> is the inventory row \<open>i\<close>
  with the hardware columns of its match. In every case, each inventory row is in the
  merged table with its key and its own columns, and a row without a match has NaN in the
  four hardware columns.
\<close>

theorem left_merge_preserves_inventory:
  "((\<forall>l \<in> set (rows inventory). length (matches hardware l) = 1) \<longrightarrow>
      length (rows (left_merge inventory hardware)) = length (rows inventory) \<and>
      (\<forall>i < length (rows inventory).
         rows (left_merge inventory hardware) ! i = merge_row (rows inventory ! i) (hd (matches hardware (rows inventory ! i))))) \<and>
   (\<forall>l \<in> set (rows inventory).
      (\<exists>m \<in> set (rows (left_merge inventory hardware)).
         fqdn m = fqdn l \<and> (\<forall>c. c \<notin> set hw_columns \<longrightarrow> col m c = col l c)) \<and>
      (matches hardware l = [] \<longrightarrow>
         (\<exists>m \<in> set (rows (left_merge inventory hardware)).
            fqdn m = fqdn l \<and> (\<forall>c. c \<notin> set hw_columns \<longrightarrow> col m c = col l c) \<and>
            (\<forall>c \<in> set hw_columns. col m c = PNaN))))"
proof (intro conjI impI ballI)
  assume one: "\<forall>l \<in> set (rows inventory). length (matches hardware l) = 1"
  have "\<forall>l \<in> set (rows inventory).
          merge_rows hardware l = [merge_row l (hd (matches hardware l))]"
    using one by (simp add: merge_rows_one_match)
  then have eq: "rows (left_merge inventory hardware) =
                   map (\<lambda>l. merge_row l (hd (matches hardware l))) (rows inventory)"
    by (simp add: left_merge_def concat_singletons)
  show "length (rows (left_merge inventory hardware)) = length (rows inventory)"
    by (simp add: eq)
  show "\<forall>i < length (rows inventory).
          rows (left_merge inventory hardware) ! i = merge_row (rows inventory ! i) (hd (matches hardware (rows inventory ! i)))"
    by (simp add: eq)
next
  fix l assume l: "l \<in> set (rows inventory)"
  obtain m where m: "m \<in> set (merge_rows hardware l)"
    using merge_rows_nonempty [of hardware l] by (cases "merge_rows hardware l") auto
  have "m \<in> set (rows (left_merge inventory hardware))"
    using l m by (auto simp add: left_merge_def)
  then show "\<exists>m \<in> set (rows (left_merge inventory hardware)).
               fqdn m = fqdn l \<and> (\<forall>c. c \<notin> set hw_columns \<longrightarrow> col m c = col l c)"
    using merge_rows_keep [OF m] by blast
next
  fix l assume l: "l \<in> set (rows inventory)" and none: "matches hardware l = []"
  have "fill_row l \<in> set (rows (left_merge inventory hardware))"
    using l none by (auto simp add: left_merge_def merge_rows_def)
  moreover have "fqdn (fill_row l) = fqdn l \<and>
      (\<forall>c. c \<notin> set hw_columns \<longrightarrow> col (fill_row l) c = col l c) \<and>
      (\<forall>c \<in> set hw_columns. col (fill_row l) c = PNaN)"
    by (simp add: fill_row_def)
  ultimately show "\<exists>m \<in> set (rows (left_merge inventory hardware)).
      fqdn m = fqdn l \<and> (\<forall>c. c \<notin> set hw_columns \<longrightarrow> col m c = col l c) \<and>
      (\<forall>c \<in> set hw_columns. col m c = PNaN)"
    by blast
qed

theorem left_merge_preserves_inventory_witness:
  "length (rows matched_inventory) = 2 \<and>
   length (matches sample_hardware (rows matched_inventory ! 0)) = 1 \<and>
   length (matches sample_hardware (rows matched_inventory ! 1)) = 1 \<and>
   length (rows (left_merge matched_inventory sample_hardware)) = 2 \<and>
   col (rows (left_merge matched_inventory sample_hardware) ! 1) ''CPU'' = PInt 8 \<and>
   mk_row ''host4'' [] \<in> set (rows sample_inventory) \<and>
   matches sample_hardware (mk_row ''host4'' []) = [] \<and>
   (\<exists>m \<in> set (rows (left_merge sample_inventory sample_hardware)).
      fqdn m = Some ''host4'' \<and> col m ''CPU'' = PNaN \<and> col m ''RAM'' = PNaN)"
proof -
  have one: "\<forall>l \<in> set (rows matched_inventory). length (matches sample_hardware l) = 1"
    by (simp add: matched_inventory_def sample_hardware_def matches_def mk_row_def)
  have n: "length (rows matched_inventory) = 2"
    by (simp add: matched_inventory_def)
  have o0: "length (matches sample_hardware (rows matched_inventory ! 0)) = 1"
    and o1: "length (matches sample_hardware (rows matched_inventory ! 1)) = 1"
    using one n by simp_all
  have mem: "mk_row ''host4'' [] \<in> set (rows sample_inventory)"
    by (simp add: sample_inventory_def)
  have none: "matches sample_hardware (mk_row ''host4'' []) = []"
    by (simp add: sample_hardware_def matches_def mk_row_def)
  have k: "fqdn (mk_row ''host4'' []) = Some ''host4''"
    by (simp add: mk_row_def)
  have cpu: "''CPU'' \<in> set hw_columns" and ram: "''RAM'' \<in> set hw_columns"
    by (simp_all add: hw_columns_def)
  have v: "col (merge_row (rows matched_inventory ! 1)
                  (hd (matches sample_hardware (rows matched_inventory ! 1)))) ''CPU'' = PInt 8"
    by (simp add: matched_inventory_def sample_hardware_def matches_def mk_row_def
        merge_row_def hw_columns_def)
  note inst = left_merge_preserves_inventory [of matched_inventory sample_hardware]
  from inst one n
  have a: "length (rows (left_merge matched_inventory sample_hardware)) = 2"
    by simp
  from inst one n
  have "rows (left_merge matched_inventory sample_hardware) ! 1 =
          merge_row (rows matched_inventory ! 1)
            (hd (matches sample_hardware (rows matched_inventory ! 1)))"
    by simp
  then have c: "col (rows (left_merge matched_inventory sample_hardware) ! 1) ''CPU'' = PInt 8"
    using v by simp
  from left_merge_preserves_inventory [of sample_inventory sample_hardware] mem none k cpu ram
  have b: "\<exists>m \<in> set (rows (left_merge sample_inventory sample_hardware)).
             fqdn m = Some ''host4'' \<and> col m ''CPU'' = PNaN \<and> col m ''RAM'' = PNaN"
    by (metis (no_types, lifting))
  show ?thesis
    using n o0 o1 a c mem none b by blast
qed

lemma set_unique: "set (unique xs) = set xs"
  by (simp add: unique_def)

lemma distinct_unique: "distinct (unique xs)"
  by (simp add: unique_def)

text \<open>
  C5. A record whose tenant name is only a bracketed annotation has the empty string as
  its cleaned name, and the run reports it: the workbook has the sheet \<^verbatim>\<open>_MAIN\<close> for the
  tenant with the empty name and the navigation sheet has a row for it.
\<close>

theorem empty_tenant_name_is_reported:
  "clean_tenant_name_nav sample_lib (PStr ''[EXPIRED]'') = Inr (Some []) \<and>
   result_titles (process_data sample_lib expired_inventory sample_hardware) =
     [''NAVIGATION'', ''_MAIN''] \<and>
   result_cell (process_data sample_lib expired_inventory sample_hardware) 0 (3, 1) =
     Some (PStr []) \<and>
   result_cell (process_data sample_lib expired_inventory sample_hardware) 1 (3, 1) =
     Some (PStr ''host2'')"
  by code_simp

lemma filter_unique: "filter P (unique xs) = unique (filter P xs)"
  by (simp add: unique_def rev_filter remdups_filter)

lemma tenants_of_without_null: "tenants_of (without_null_tenants md) = tenants_of md"
proof -
  let ?f = "\<lambda>r. col r ''tenantName''"
  have "map ?f (filter (\<lambda>r. pd_notna (?f r)) (rows md)) = filter pd_notna (map ?f (rows md))"
    by (simp add: filter_map comp_def)
  then show ?thesis
    by (simp add: tenants_of_def without_null_tenants_def filter_unique)
qed

lemma tenant_data_of_without_null:
  assumes "pd_notna t"
  shows "tenant_data_of (without_null_tenants md) t = tenant_data_of md t"
proof -
  have "(pd_notna (col r ''tenantName'') \<and> col r ''tenantName'' = t) = (col r ''tenantName'' = t)"
    for r :: trow
    using assms by auto
  then show ?thesis
    by (simp add: tenant_data_of_def without_null_tenants_def conj_commute)
qed

lemma tenant_body_without_null:
  assumes "pd_notna t"
  shows "tenant_body L (without_null_tenants md) t sheets = tenant_body L md t sheets"
proof -
  have c: "columns (without_null_tenants md) = columns md"
    by (simp add: without_null_tenants_def)
  have m: "main_rows (without_null_tenants md) x = main_rows md x" for x
    by (simp add: main_rows_def c)
  have l: "list_part_nav L (without_null_tenants md) x cn parse sn dc w =
           list_part_nav L md x cn parse sn dc w" for x cn parse sn dc w
    by (simp add: list_part_nav_def c)
  show ?thesis
    by (simp add: tenant_body_def Let_def tenant_data_of_without_null [OF assms] m l
        split: sum.splits option.splits)
qed

lemma render_tenants_without_null:
  "\<forall>t \<in> set ts. pd_notna t \<Longrightarrow>
   render_tenants L (without_null_tenants md) st ts = render_tenants L md st ts"
proof (induction ts arbitrary: st)
  case Nil
  then show ?case by (simp add: render_tenants_def)
next
  case (Cons t ts)
  have "create_tenant_sheets L (without_null_tenants md) st t = create_tenant_sheets L md st t"
    using Cons.prems by (simp add: create_tenant_sheets_def tenant_body_without_null)
  moreover have "render_tenants L (without_null_tenants md) st' ts = render_tenants L md st' ts"
    for st'
    using Cons by simp
  ultimately show ?case
    by (simp add: render_tenants_def)
qed

lemma tenants_of_notna: "\<forall>t \<in> set (tenants_of md). pd_notna t"
  by (simp add: tenants_of_def)

text \<open>
  C5, amended. The tenants of a run are pairwise different. The records whose cleaned tenant
  name is null are not reported: the tenants, the sheets that the loop over the tenants
  makes, what it prints and the navigation sheet are the same as for the table without
  these records, and such a record is among the rows of no tenant. A record whose cleaned
  tenant name is not null, the empty string included, has its name among the tenants and
  is among the rows of that tenant, which are the rows its sheets are made from, and of no
  other tenant.
\<close>

theorem tenants_partition_records:
  "distinct (tenants_of md) \<and>
   tenants_of (without_null_tenants md) = tenants_of md \<and>
   render_tenants L (without_null_tenants md) st (tenants_of (without_null_tenants md)) =
     render_tenants L md st (tenants_of md) \<and>
   create_navigation_sheet L
       (wb (render_tenants L (without_null_tenants md) st (tenants_of (without_null_tenants md))))
       (tenants_of (without_null_tenants md)) =
     create_navigation_sheet L (wb (render_tenants L md st (tenants_of md))) (tenants_of md) \<and>
   (\<forall>r \<in> set (rows md).
      (\<not> pd_notna (col r ''tenantName'') \<longrightarrow>
         (\<forall>t \<in> set (tenants_of md). r \<notin> set (tenant_data_of md t))) \<and>
      (pd_notna (col r ''tenantName'') \<longrightarrow>
         col r ''tenantName'' \<in> set (tenants_of md) \<and>
         (\<forall>t \<in> set (tenants_of md).
            r \<in> set (tenant_data_of md t) \<longleftrightarrow> t = col r ''tenantName'')))"
proof -
  have d: "distinct (tenants_of md)"
    by (simp add: tenants_of_def distinct_unique)
  have t: "tenants_of (without_null_tenants md) = tenants_of md"
    by (rule tenants_of_without_null)
  have r: "render_tenants L (without_null_tenants md) st (tenants_of md) =
           render_tenants L md st (tenants_of md)"
    using tenants_of_notna by (rule render_tenants_without_null)
  have p: "\<forall>r \<in> set (rows md).
      (\<not> pd_notna (col r ''tenantName'') \<longrightarrow>
         (\<forall>t \<in> set (tenants_of md). r \<notin> set (tenant_data_of md t))) \<and>
      (pd_notna (col r ''tenantName'') \<longrightarrow>
         col r ''tenantName'' \<in> set (tenants_of md) \<and>
         (\<forall>t \<in> set (tenants_of md).
            r \<in> set (tenant_data_of md t) \<longleftrightarrow> t = col r ''tenantName''))"
    by (auto simp add: tenants_of_def tenant_data_of_def set_unique)
  show ?thesis
    using d p by (simp add: t r)
qed

theorem tenants_partition_records_witness:
  "tenants_of cleaned_sample = [PStr ''Corp'', PStr [], PStr ''A/B''] \<and>
   map fqdn (tenant_data_of cleaned_sample (PStr ''Corp'')) = [Some ''host1'', Some ''host5''] \<and>
   map fqdn (tenant_data_of cleaned_sample (PStr [])) = [Some ''host2''] \<and>
   col (rows cleaned_sample ! 3) ''tenantName'' = PNone \<and>
   rows cleaned_sample ! 3 \<notin> set (tenant_data_of cleaned_sample (PStr ''Corp'')) \<and>
   rows cleaned_sample ! 3 \<notin> set (tenant_data_of cleaned_sample (PStr [])) \<and>
   rows cleaned_sample ! 3 \<notin> set (tenant_data_of cleaned_sample (PStr ''A/B'')) \<and>
   col (rows cleaned_sample ! 1) ''tenantName'' = PStr [] \<and>
   PStr [] \<in> set (tenants_of cleaned_sample) \<and>
   rows cleaned_sample ! 1 \<in> set (tenant_data_of cleaned_sample (PStr [])) \<and>
   rows cleaned_sample ! 1 \<notin> set (tenant_data_of cleaned_sample (PStr ''Corp'')) \<and>
   distinct (tenants_of cleaned_sample) \<and>
   map fqdn (rows (without_null_tenants cleaned_sample)) =
     [Some ''host1'', Some ''host2'', Some ''host3'', Some ''host5''] \<and>
   tenants_of (without_null_tenants cleaned_sample) = tenants_of cleaned_sample \<and>
   render_tenants sample_lib (without_null_tenants cleaned_sample) \<lparr>wb = [], printed = []\<rparr>
       (tenants_of (without_null_tenants cleaned_sample)) =
     render_tenants sample_lib cleaned_sample \<lparr>wb = [], printed = []\<rparr>
       (tenants_of cleaned_sample)"
proof -
  have t: "tenants_of cleaned_sample = [PStr ''Corp'', PStr [], PStr ''A/B'']"
    by code_simp
  have d1: "map fqdn (tenant_data_of cleaned_sample (PStr ''Corp'')) =
              [Some ''host1'', Some ''host5'']"
    by code_simp
  have d2: "map fqdn (tenant_data_of cleaned_sample (PStr [])) = [Some ''host2'']"
    by code_simp
  have m3: "rows cleaned_sample ! 3 \<in> set (rows cleaned_sample)"
    by (simp add: cleaned_sample_def)
  have m1: "rows cleaned_sample ! 1 \<in> set (rows cleaned_sample)"
    by (simp add: cleaned_sample_def)
  have c3: "col (rows cleaned_sample ! 3) ''tenantName'' = PNone"
    by code_simp
  have c1: "col (rows cleaned_sample ! 1) ''tenantName'' = PStr []"
    by code_simp
  have n3: "\<not> pd_notna (col (rows cleaned_sample ! 3) ''tenantName'')"
    unfolding c3 by simp
  have n1: "pd_notna (col (rows cleaned_sample ! 1) ''tenantName'')"
    unfolding c1 by simp
  note inst = tenants_partition_records [of cleaned_sample sample_lib "\<lparr>wb = [], printed = []\<rparr>"]
  from inst have dist: "distinct (tenants_of cleaned_sample)"
    by (rule conjunct1)
  from inst have same: "tenants_of (without_null_tenants cleaned_sample) = tenants_of cleaned_sample"
    by blast
  from inst have rendered:
    "render_tenants sample_lib (without_null_tenants cleaned_sample) \<lparr>wb = [], printed = []\<rparr>
       (tenants_of (without_null_tenants cleaned_sample)) =
     render_tenants sample_lib cleaned_sample \<lparr>wb = [], printed = []\<rparr>
       (tenants_of cleaned_sample)"
    by blast
  have dropped: "map fqdn (rows (without_null_tenants cleaned_sample)) =
                   [Some ''host1'', Some ''host2'', Some ''host3'', Some ''host5'']"
    by code_simp
  from inst have each: "\<forall>r \<in> set (rows cleaned_sample).
      (\<not> pd_notna (col r ''tenantName'') \<longrightarrow>
         (\<forall>t \<in> set (tenants_of cleaned_sample). r \<notin> set (tenant_data_of cleaned_sample t))) \<and>
      (pd_notna (col r ''tenantName'') \<longrightarrow>
         col r ''tenantName'' \<in> set (tenants_of cleaned_sample) \<and>
         (\<forall>t \<in> set (tenants_of cleaned_sample).
            r \<in> set (tenant_data_of cleaned_sample t) \<longleftrightarrow> t = col r ''tenantName''))"
    by blast
  have a: "\<forall>t \<in> set (tenants_of cleaned_sample).
             rows cleaned_sample ! 3 \<notin> set (tenant_data_of cleaned_sample t)"
    using conjunct1 [OF bspec [OF each m3], THEN mp, OF n3] .
  have b: "PStr [] \<in> set (tenants_of cleaned_sample) \<and>
           (\<forall>t \<in> set (tenants_of cleaned_sample).
              rows cleaned_sample ! 1 \<in> set (tenant_data_of cleaned_sample t) \<longleftrightarrow> t = PStr [])"
    using conjunct2 [OF bspec [OF each m1], THEN mp, OF n1] unfolding c1 .
  have in1: "PStr ''Corp'' \<in> set (tenants_of cleaned_sample)"
    and in3: "PStr ''A/B'' \<in> set (tenants_of cleaned_sample)"
    by (simp_all add: t)
  have ne: "PStr ''Corp'' \<noteq> PStr []"
    by simp
  have a1: "rows cleaned_sample ! 3 \<notin> set (tenant_data_of cleaned_sample (PStr ''Corp''))"
    using a in1 by (rule bspec)
  have a2: "rows cleaned_sample ! 3 \<notin> set (tenant_data_of cleaned_sample (PStr []))"
    using a b by blast
  have a3: "rows cleaned_sample ! 3 \<notin> set (tenant_data_of cleaned_sample (PStr ''A/B''))"
    using a in3 by (rule bspec)
  have b1: "rows cleaned_sample ! 1 \<in> set (tenant_data_of cleaned_sample (PStr []))"
    using b by blast
  have b2: "rows cleaned_sample ! 1 \<notin> set (tenant_data_of cleaned_sample (PStr ''Corp''))"
    using b in1 ne by blast
  show ?thesis
    using t d1 d2 c3 a1 a2 a3 c1 b b1 b2 dist dropped same rendered
    by (intro conjI) simp_all
qed

section \<open>Claims about the rendering\<close>

lemma upd_last_snoc: "upd_last f (xs @ [x]) = xs @ [f x]"
  by (simp add: upd_last_def)

lemma create_sheet_snoc:
  "create_sheet L sheets t = Inr sheets1 \<Longrightarrow> \<exists>ws. sheets1 = sheets @ [ws]"
  by (auto simp add: create_sheet_def split: sum.splits)

lemma list_part_nav_extends:
  "\<exists>new. fst (list_part_nav L md tenant_data c parse sheet_name data_columns sheets) = sheets @ new"
proof (cases "c \<in> set (columns md)")
  case False
  then show ?thesis by (simp add: list_part_nav_def)
next
  case True
  show ?thesis
  proof (cases "map_err (item_rows parse c) tenant_data")
    case (Inl e)
    then show ?thesis using True by (simp add: list_part_nav_def)
  next
    case (Inr rss)
    show ?thesis
    proof (cases "concat rss = []")
      case True
      then show ?thesis using \<open>c \<in> set (columns md)\<close> Inr by (simp add: list_part_nav_def)
    next
      case False
      show ?thesis
      proof (cases "create_sheet L sheets sheet_name")
        case (Inl e)
        then show ?thesis
          using \<open>c \<in> set (columns md)\<close> Inr False by (simp add: list_part_nav_def)
      next
        case (Inr sheets1)
        then obtain ws where "sheets1 = sheets @ [ws]"
          using create_sheet_snoc by blast
        then show ?thesis
          using \<open>c \<in> set (columns md)\<close> \<open>map_err (item_rows parse c) tenant_data = Inr rss\<close>
            False Inr
          by (simp add: list_part_nav_def upd_last_snoc)
      qed
    qed
  qed
qed

lemma tenant_body_extends: "\<exists>new. fst (tenant_body L md t sheets) = sheets @ new"
proof (cases "clean_tenant_name_nav L t")
  case (Inl e)
  then show ?thesis by (simp add: tenant_body_def)
next
  case (Inr n)
  show ?thesis
  proof (cases n)
    case None
    then show ?thesis using Inr by (simp add: tenant_body_def)
  next
    case (Some clean_name)
    let ?prefix = "take 25 clean_name"
    show ?thesis
    proof (cases "create_sheet L sheets (?prefix @ ''_MAIN'')")
      case (Inl e)
      then show ?thesis using Inr Some by (simp add: tenant_body_def)
    next
      case sheets1: (Inr sheets1)
      then obtain ws where ws: "sheets1 = sheets @ [ws]"
        using create_sheet_snoc by blast
      let ?s2 = "sheets @ [foldl ws_append (add_back_to_navigation_link ws)
                             (main_rows md (tenant_data_of md t))]"
      let ?p1 = "list_part_nav L md (tenant_data_of md t) ''software''
                   (parse_software_data_nav L) (?prefix @ ''_SOFTWARE'') software_fields ?s2"
      obtain new1 where new1: "fst ?p1 = ?s2 @ new1"
        using list_part_nav_extends by blast
      let ?p2 = "list_part_nav L md (tenant_data_of md t) ''vulnerabilities''
                   (parse_vulnerabilities_data_nav L) (?prefix @ ''_VULNERABILITIES'')
                   vuln_fields (fst ?p1)"
      obtain new2 where new2: "fst ?p2 = fst ?p1 @ new2"
        using list_part_nav_extends by blast
      have "fst (tenant_body L md t sheets) = fst ?p1 \<or> fst (tenant_body L md t sheets) = fst ?p2"
        using Inr Some sheets1 ws
        by (cases ?p1) (auto simp add: tenant_body_def Let_def upd_last_snoc split: option.splits)
      then show ?thesis
        using new1 new2 by auto
    qed
  qed
qed

lemma title_ws_append: "title (ws_append ws vs) = title ws"
  by (simp add: ws_append_def)

lemma title_foldl_ws_append: "title (foldl ws_append ws rs) = title ws"
  by (induction rs arbitrary: ws) (simp_all add: title_ws_append)

lemma title_add_back: "title (add_back_to_navigation_link ws) = title ws"
  by (simp add: add_back_to_navigation_link_def ws_cell_def)

text \<open>
  When no exception leaves the body, the tenant has a cleaned name and the body has added
  the main sheet, under the title that openpyxl gave it, right after the sheets that were
  there.
\<close>

lemma tenant_body_main:
  assumes "snd (tenant_body L md t sheets) = None"
  shows "\<exists>n ws new. clean_tenant_name_nav L t = Inr (Some n) \<and>
           sheet_title L sheets (take 25 n @ ''_MAIN'') = Inr (title ws) \<and>
           fst (tenant_body L md t sheets) = sheets @ ws # new"
proof (cases "clean_tenant_name_nav L t")
  case (Inl e)
  then show ?thesis using assms by (simp add: tenant_body_def)
next
  case (Inr n)
  show ?thesis
  proof (cases n)
    case None
    then show ?thesis using Inr assms by (simp add: tenant_body_def)
  next
    case (Some clean_name)
    let ?prefix = "take 25 clean_name"
    show ?thesis
    proof (cases "sheet_title L sheets (?prefix @ ''_MAIN'')")
      case (Inl e)
      then show ?thesis using Inr Some assms by (simp add: tenant_body_def create_sheet_def)
    next
      case t': (Inr t')
      let ?ws = "foldl ws_append (add_back_to_navigation_link (new_sheet t'))
                   (main_rows md (tenant_data_of md t))"
      let ?s2 = "sheets @ [?ws]"
      let ?p1 = "list_part_nav L md (tenant_data_of md t) ''software''
                   (parse_software_data_nav L) (?prefix @ ''_SOFTWARE'') software_fields ?s2"
      obtain new1 where new1: "fst ?p1 = ?s2 @ new1"
        using list_part_nav_extends by blast
      let ?p2 = "list_part_nav L md (tenant_data_of md t) ''vulnerabilities''
                   (parse_vulnerabilities_data_nav L) (?prefix @ ''_VULNERABILITIES'')
                   vuln_fields (fst ?p1)"
      obtain new2 where new2: "fst ?p2 = fst ?p1 @ new2"
        using list_part_nav_extends by blast
      have "fst (tenant_body L md t sheets) = fst ?p1 \<or> fst (tenant_body L md t sheets) = fst ?p2"
        using Inr Some t'
        by (cases ?p1)
          (auto simp add: tenant_body_def create_sheet_def Let_def upd_last_snoc
            split: option.splits)
      then have "\<exists>new. fst (tenant_body L md t sheets) = sheets @ ?ws # new"
        using new1 new2 by auto
      moreover have "title ?ws = t'"
        by (simp add: title_foldl_ws_append title_add_back new_sheet_def)
      ultimately show ?thesis
        using Inr Some t' by auto
    qed
  qed
qed

lemma create_tenant_sheets_wb:
  "wb (create_tenant_sheets L md st t) = fst (tenant_body L md t (wb st))"
  by (cases "tenant_body L md t (wb st)")
    (auto simp add: create_tenant_sheets_def split: option.splits)

lemma create_tenant_sheets_printed:
  "printed (create_tenant_sheets L md st t) =
     printed st @ (case snd (tenant_body L md t (wb st)) of None \<Rightarrow> [] | Some e \<Rightarrow> [(t, e)])"
  by (cases "tenant_body L md t (wb st)")
    (auto simp add: create_tenant_sheets_def split: option.splits)

lemma render_tenants_extends:
  "\<exists>rest more. wb (render_tenants L md st ts) = wb st @ rest \<and>
                printed (render_tenants L md st ts) = printed st @ more"
proof (induction ts arbitrary: st)
  case Nil
  then show ?case by (simp add: render_tenants_def)
next
  case (Cons t ts)
  obtain new where new: "wb (create_tenant_sheets L md st t) = wb st @ new"
    using tenant_body_extends [of L md t "wb st"] by (auto simp add: create_tenant_sheets_wb)
  obtain rest more where
    "wb (render_tenants L md (create_tenant_sheets L md st t) ts) =
       wb (create_tenant_sheets L md st t) @ rest"
    "printed (render_tenants L md (create_tenant_sheets L md st t) ts) =
       printed (create_tenant_sheets L md st t) @ more"
    using Cons.IH by blast
  then show ?case
    using new by (simp add: render_tenants_def create_tenant_sheets_printed)
qed

lemma render_tenants_append:
  "render_tenants L md st (ts1 @ ts2) = render_tenants L md (render_tenants L md st ts1) ts2"
  by (simp add: render_tenants_def)

lemma render_tenants_Cons:
  "render_tenants L md st (t # ts) = render_tenants L md (create_tenant_sheets L md st t) ts"
  by (simp add: render_tenants_def)

lemma nav_rows_strings:
  "\<forall>t \<in> set tenants. is_str t \<Longrightarrow> \<exists>ws'. nav_rows L names ws r tenants = Inr ws'"
proof (induction tenants arbitrary: ws r)
  case Nil
  then show ?case by simp
next
  case (Cons t tenants)
  then obtain s where s: "t = PStr s"
    by (cases t) simp_all
  have "clean_tenant_name_nav L (PStr s) = Inr (Some (strip (join_sp (split (re_sub_brackets s)))))"
    by (simp add: clean_tenant_name_nav_def)
  then show ?case
    using s Cons by simp
qed

text \<open>
  The tenants of a run are strings; the navigation sheet is then made without an
  exception, and it is put before the sheets of the tenants, which all stay.
\<close>

lemma create_navigation_sheet_strings:
  assumes "\<forall>t \<in> set tenants. is_str t"
  shows "\<exists>nav. create_navigation_sheet L sheets tenants = Inr (nav # sheets)"
proof -
  have "\<not> list_ex invalid_title_char nav_title"
    by code_simp
  then have "\<exists>t'. sheet_title L sheets nav_title = Inr t'"
    by (simp add: sheet_title_def)
  then obtain t' where "sheet_title L sheets nav_title = Inr t'"
    by blast
  then have first: "create_sheet_first L sheets nav_title = Inr (new_sheet t' # sheets)"
    by (simp add: create_sheet_first_def)
  let ?ws0 = "write_cells (ws_cell (new_sheet t') 1 1 (PStr ''REPORT NAVIGATION'')) 2 1
                (map PStr [''Tenant Name'', ''Main Data'', ''Software'', ''Vulnerabilities''])"
  obtain ws' where "nav_rows L (map title (new_sheet t' # sheets)) ?ws0 3 tenants = Inr ws'"
    using nav_rows_strings [OF assms] by blast
  then have "create_navigation_sheet L sheets tenants = Inr (ws' # sheets)"
    using first by (simp add: create_navigation_sheet_def Let_def del: write_cells.simps)
  then show ?thesis by blast
qed

text \<open>
  C8. \<open>render_tenants\<close> is the loop over the tenants; it returns a workbook for every list
  of tenants, whatever exceptions their renderings raise. For a tenant at any place of the
  list, the workbook as the body of its \<open>create_tenant_sheets\<close> left it is the beginning of
  the final workbook, so the renderings that follow, failing or not, remove nothing of it.
  When an exception left the body, the tenant and the exception are among the printed
  messages; when none did, the main sheet of the tenant is in the workbook after the loop.
  The navigation sheet is then put before these sheets, so the workbook that is saved has
  all of them.
\<close>

theorem tenant_failure_keeps_other_sheets:
  assumes "tenants = before @ t # after"
  shows "(\<exists>rest. wb (render_tenants L md st tenants) =
            fst (tenant_body L md t (wb (render_tenants L md st before))) @ rest) \<and>
         (\<forall>e. snd (tenant_body L md t (wb (render_tenants L md st before))) = Some e \<longrightarrow>
            (t, e) \<in> set (printed (render_tenants L md st tenants))) \<and>
         (snd (tenant_body L md t (wb (render_tenants L md st before))) = None \<longrightarrow>
            (\<exists>n ws. clean_tenant_name_nav L t = Inr (Some n) \<and>
               sheet_title L (wb (render_tenants L md st before)) (take 25 n @ ''_MAIN'') =
                 Inr (title ws) \<and>
               ws \<in> set (wb (render_tenants L md st tenants)))) \<and>
         ((\<forall>t' \<in> set tenants. is_str t') \<longrightarrow>
            (\<exists>nav. create_navigation_sheet L (wb (render_tenants L md st tenants)) tenants =
               Inr (nav # wb (render_tenants L md st tenants))))"
proof -
  let ?mid = "render_tenants L md st before"
  let ?one = "create_tenant_sheets L md ?mid t"
  have split: "render_tenants L md st tenants = render_tenants L md ?one after"
    using assms by (simp add: render_tenants_append render_tenants_Cons)
  obtain rest more where
    ext: "wb (render_tenants L md ?one after) = wb ?one @ rest"
         "printed (render_tenants L md ?one after) = printed ?one @ more"
    using render_tenants_extends by blast
  have whole: "wb (render_tenants L md st tenants) = fst (tenant_body L md t (wb ?mid)) @ rest"
    using split ext by (simp add: create_tenant_sheets_wb)
  have logged: "(t, e) \<in> set (printed (render_tenants L md st tenants))"
    if "snd (tenant_body L md t (wb ?mid)) = Some e" for e
    using split ext that by (simp add: create_tenant_sheets_printed)
  have main: "\<exists>n ws. clean_tenant_name_nav L t = Inr (Some n) \<and>
                sheet_title L (wb ?mid) (take 25 n @ ''_MAIN'') = Inr (title ws) \<and>
                ws \<in> set (wb (render_tenants L md st tenants))"
    if ok: "snd (tenant_body L md t (wb ?mid)) = None"
  proof -
    obtain n ws new where
      "clean_tenant_name_nav L t = Inr (Some n)"
      "sheet_title L (wb ?mid) (take 25 n @ ''_MAIN'') = Inr (title ws)"
      "fst (tenant_body L md t (wb ?mid)) = wb ?mid @ ws # new"
      using tenant_body_main [OF ok] by blast
    then show ?thesis
      using whole by auto
  qed
  have nav: "\<exists>nav. create_navigation_sheet L (wb (render_tenants L md st tenants)) tenants =
               Inr (nav # wb (render_tenants L md st tenants))"
    if "\<forall>t' \<in> set tenants. is_str t'"
    using that by (rule create_navigation_sheet_strings)
  show ?thesis
    using whole logged main nav by blast
qed

theorem tenant_failure_keeps_other_sheets_witness:
  "snd (tenant_body sample_lib three_tenants (PStr ''A/B'') []) = Some ValueError \<and>
   wb (render_tenants sample_lib three_tenants \<lparr>wb = [], printed = []\<rparr> [PStr ''A/B'']) = [] \<and>
   snd (tenant_body sample_lib three_tenants (PStr ''Corp'') []) = None \<and>
   map title (fst (tenant_body sample_lib three_tenants (PStr ''Corp'') [])) = [''Corp_MAIN''] \<and>
   (\<exists>rest. wb (render_tenants sample_lib three_tenants \<lparr>wb = [], printed = []\<rparr>
              [PStr ''A/B'', PStr ''Corp'', PStr ''C:D'']) =
      fst (tenant_body sample_lib three_tenants (PStr ''Corp'') []) @ rest) \<and>
   map title (wb (render_tenants sample_lib three_tenants \<lparr>wb = [], printed = []\<rparr>
      [PStr ''A/B'', PStr ''Corp'', PStr ''C:D''])) = [''Corp_MAIN''] \<and>
   printed (render_tenants sample_lib three_tenants \<lparr>wb = [], printed = []\<rparr>
      [PStr ''A/B'', PStr ''Corp'', PStr ''C:D'']) =
     [(PStr ''A/B'', ValueError), (PStr ''C:D'', ValueError)] \<and>
   (\<exists>nav. create_navigation_sheet sample_lib
        (wb (render_tenants sample_lib three_tenants \<lparr>wb = [], printed = []\<rparr>
           [PStr ''A/B'', PStr ''Corp'', PStr ''C:D'']))
        [PStr ''A/B'', PStr ''Corp'', PStr ''C:D''] =
      Inr (nav # wb (render_tenants sample_lib three_tenants \<lparr>wb = [], printed = []\<rparr>
                      [PStr ''A/B'', PStr ''Corp'', PStr ''C:D''])))"
proof -
  let ?st = "\<lparr>wb = [], printed = []\<rparr> :: run_state"
  have h: "[PStr ''A/B'', PStr ''Corp'', PStr ''C:D''] =
             [PStr ''A/B''] @ PStr ''Corp'' # [PStr ''C:D'']"
    by simp
  have f: "snd (tenant_body sample_lib three_tenants (PStr ''A/B'') []) = Some ValueError"
    by code_simp
  have m: "wb (render_tenants sample_lib three_tenants ?st [PStr ''A/B'']) = []"
    by code_simp
  have ok: "snd (tenant_body sample_lib three_tenants (PStr ''Corp'') []) = None"
    by code_simp
  have g: "map title (fst (tenant_body sample_lib three_tenants (PStr ''Corp'') [])) =
             [''Corp_MAIN'']"
    by code_simp
  have q: "map title (wb (render_tenants sample_lib three_tenants ?st
             [PStr ''A/B'', PStr ''Corp'', PStr ''C:D''])) = [''Corp_MAIN'']"
    by code_simp
  have p: "printed (render_tenants sample_lib three_tenants ?st
             [PStr ''A/B'', PStr ''Corp'', PStr ''C:D'']) =
           [(PStr ''A/B'', ValueError), (PStr ''C:D'', ValueError)]"
    by code_simp
  note inst = tenant_failure_keeps_other_sheets [OF h, of sample_lib three_tenants ?st,
      unfolded m]
  from inst have e: "\<exists>rest. wb (render_tenants sample_lib three_tenants ?st
              [PStr ''A/B'', PStr ''Corp'', PStr ''C:D'']) =
      fst (tenant_body sample_lib three_tenants (PStr ''Corp'') []) @ rest"
    by (rule conjunct1)
  have strs: "\<forall>t' \<in> set [PStr ''A/B'', PStr ''Corp'', PStr ''C:D'']. is_str t'"
    by simp
  from inst strs have v: "\<exists>nav. create_navigation_sheet sample_lib
        (wb (render_tenants sample_lib three_tenants ?st [PStr ''A/B'', PStr ''Corp'', PStr ''C:D'']))
        [PStr ''A/B'', PStr ''Corp'', PStr ''C:D''] =
      Inr (nav # wb (render_tenants sample_lib three_tenants ?st
                      [PStr ''A/B'', PStr ''Corp'', PStr ''C:D'']))"
    by blast
  show ?thesis
    using f m ok g e q p v by (intro conjI) assumption+
qed

section \<open>The grouped sheet of the navigation pipeline\<close>

lemma put_row_other_row: "r' \<noteq> r \<Longrightarrow> put_row m r c vs (r', c') = m (r', c')"
  by (induction vs arbitrary: m c) simp_all

lemma put_row_left: "c' < c \<Longrightarrow> put_row m r c vs (r', c') = m (r', c')"
  by (induction vs arbitrary: m c) simp_all

lemma put_row_cell:
  "c \<le> c' \<Longrightarrow> c' < c + length vs \<Longrightarrow> put_row m r c vs (r, c') = Some (vs ! (c' - c))"
proof (induction vs arbitrary: m c)
  case Nil
  then show ?case by simp
next
  case (Cons v vs)
  show ?case
  proof (cases "c' = c")
    case True
    then show ?thesis by (simp add: put_row_left)
  next
    case False
    then have "Suc c \<le> c'" and "c' < Suc c + length vs"
      using Cons.prems by simp_all
    then have "put_row (m((r, c) := Some v)) r (Suc c) vs (r, c') = Some (vs ! (c' - Suc c))"
      by (rule Cons.IH)
    moreover have "(v # vs) ! (c' - c) = vs ! (c' - Suc c)"
      using False Cons.prems by (simp add: nth_Cons')
    ultimately show ?thesis by simp
  qed
qed

lemma ws_append_merged_update:
  "ws_append (ws\<lparr>merged_cells := m\<rparr>) vs = (ws_append ws vs)\<lparr>merged_cells := m\<rparr>"
  by (simp add: ws_append_def)

lemma foldl_ws_append_merged_update:
  "foldl ws_append (ws\<lparr>merged_cells := m\<rparr>) rs = (foldl ws_append ws rs)\<lparr>merged_cells := m\<rparr>"
  by (induction rs arbitrary: ws) (simp_all add: ws_append_merged_update)

lemma current_row_foldl_ws_append:
  "current_row (foldl ws_append ws rs) = current_row ws + length rs"
  by (induction rs arbitrary: ws) (simp_all add: ws_append_def)

lemma merged_cells_foldl_ws_append:
  "merged_cells (foldl ws_append ws rs) = merged_cells ws"
  by (induction rs arbitrary: ws) (simp_all add: ws_append_def)

text \<open>
  Appending lines: line \<open>n\<close> goes to row \<open>current_row ws + 1 + n\<close>, its values from column 1
  on, and the rows that were there keep their cells.
\<close>

lemma cells_foldl_ws_append_old:
  "r \<le> current_row ws \<Longrightarrow> cells (foldl ws_append ws rs) (r, c) = cells ws (r, c)"
proof (induction rs arbitrary: ws)
  case Nil
  then show ?case by simp
next
  case (Cons vs rs)
  have "cells (foldl ws_append (ws_append ws vs) rs) (r, c) = cells (ws_append ws vs) (r, c)"
    using Cons.prems by (intro Cons.IH) (simp add: ws_append_def)
  also have "\<dots> = cells ws (r, c)"
    using Cons.prems by (simp add: ws_append_def put_row_other_row)
  finally show ?case by simp
qed

lemma cells_foldl_ws_append_new:
  "n < length rs \<Longrightarrow> c < length (rs ! n) \<Longrightarrow>
   cells (foldl ws_append ws rs) (current_row ws + 1 + n, Suc c) = Some (rs ! n ! c)"
proof (induction rs arbitrary: ws n)
  case Nil
  then show ?case by simp
next
  case (Cons vs rs)
  show ?case
  proof (cases n)
    case 0
    have "cells (foldl ws_append (ws_append ws vs) rs) (Suc (current_row ws), Suc c) =
            cells (ws_append ws vs) (Suc (current_row ws), Suc c)"
      by (rule cells_foldl_ws_append_old) (simp add: ws_append_def)
    also have "\<dots> = Some (vs ! c)"
      using Cons.prems 0 put_row_cell [of 1 "Suc c" vs "cells ws" "Suc (current_row ws)"]
      by (simp add: ws_append_def)
    finally show ?thesis using 0 by simp
  next
    case (Suc k)
    have "cells (foldl ws_append (ws_append ws vs) rs)
            (current_row (ws_append ws vs) + 1 + k, Suc c) = Some (rs ! k ! c)"
      using Cons.prems Suc by (intro Cons.IH) simp_all
    moreover have "current_row (ws_append ws vs) + 1 + k = current_row ws + 1 + n"
      using Suc by (simp add: ws_append_def)
    ultimately show ?thesis
      using Suc by simp
  qed
qed

lemma write_group_nav_lines:
  "write_group_nav df data_columns ws g = foldl ws_append ws (group_lines df data_columns g)"
proof (cases g)
  case Nil
  then show ?thesis by (simp add: write_group_nav_def group_lines_def)
next
  case (Cons first_row others)
  have "foldl (\<lambda>w r. ws_append w (PNone # map (row_get df r) data_columns)) w others =
          foldl ws_append w (map (\<lambda>r. PNone # map (row_get df r) data_columns) others)" for w
    by (induction others arbitrary: w) simp_all
  then show ?thesis
    using Cons by (simp add: write_group_nav_def group_lines_def row_get_def)
qed

lemma length_group_lines: "length (group_lines df data_columns g) = length g"
  by (cases g) (simp_all add: group_lines_def)

lemma group_lines_later_first_cell:
  "0 < n \<Longrightarrow> n < length g \<Longrightarrow> group_lines df data_columns g ! n ! 0 = PNone"
  by (cases g) (simp_all add: group_lines_def nth_Cons')

lemma group_lines_nonempty_line:
  "n < length g \<Longrightarrow> group_lines df data_columns g ! n \<noteq> []"
  by (cases g) (auto simp add: group_lines_def nth_Cons')

text \<open>
  Merging the first column over the rows of a group that was just appended changes no
  cell: below the first row of the group the column holds nothing already.
\<close>

lemma merge_group_keeps_cells:
  assumes "1 < length g"
  shows "ws_merge_cells (foldl ws_append ws (group_lines df data_columns g))
           (Suc (current_row ws)) (Suc (current_row ws) + length g - 1) 1 1 =
         (foldl ws_append ws (group_lines df data_columns g))
           \<lparr>merged_cells := merged_cells ws @
              [(Suc (current_row ws), Suc (current_row ws) + length g - 1, 1, 1)]\<rparr>"
proof -
  let ?R = "foldl ws_append ws (group_lines df data_columns g)"
  let ?a = "Suc (current_row ws)"
  have same: "(if ?a \<le> fst p \<and> fst p \<le> ?a + length g - 1 \<and> 1 \<le> snd p \<and> snd p \<le> 1 \<and>
                  p \<noteq> (?a, 1)
               then Some PNone else cells ?R p) = cells ?R p" for p
  proof (cases "?a \<le> fst p \<and> fst p \<le> ?a + length g - 1 \<and> 1 \<le> snd p \<and> snd p \<le> 1 \<and>
                  p \<noteq> (?a, 1)")
    case False
    then show ?thesis by (simp only: if_False)
  next
    case True
    obtain r c where p: "p = (r, c)" by (cases p)
    from True p have c: "c = 1" and r: "?a < r" "r \<le> ?a + length g - 1"
      by auto
    define n where "n = r - ?a"
    have n: "0 < n" "n < length g" "r = current_row ws + 1 + n"
      using r by (simp_all add: n_def)
    have "cells ?R (current_row ws + 1 + n, Suc 0) =
            Some (group_lines df data_columns g ! n ! 0)"
      using n by (intro cells_foldl_ws_append_new)
        (simp_all add: length_group_lines group_lines_nonempty_line)
    then have "cells ?R p = Some PNone"
      using n p c by (simp add: group_lines_later_first_cell)
    then show ?thesis by (simp only: if_cancel)
  qed
  have fn: "(\<lambda>p. if ?a \<le> fst p \<and> fst p \<le> ?a + length g - 1 \<and> 1 \<le> snd p \<and> snd p \<le> 1 \<and>
                    p \<noteq> (?a, 1)
                 then Some PNone else cells ?R p) = cells ?R"
    by (rule ext) (rule same)
  show ?thesis
    unfolding ws_merge_cells_def fn
    by (simp add: merged_cells_foldl_ws_append)
qed

text \<open>
  The loop of the navigation pipeline, when \<^verbatim>\<open>current_row\<close> is the row after the last
  row of the sheet: the sheet gets the lines of the groups, one group after the other, and
  the merged ranges over exactly the rows of each group of more than one row.
\<close>

lemma merged_loop_nav_lines:
  "cur = Suc (current_row ws) \<Longrightarrow>
   merged_loop_nav df data_columns ws cur gs =
     (foldl ws_append ws (concat (map (group_lines df data_columns) gs)))
       \<lparr>merged_cells := merged_cells ws @ merge_ranges cur gs\<rparr>"
proof (induction gs arbitrary: ws cur)
  case Nil
  then show ?case by simp
next
  case (Cons g gs)
  let ?w1 = "foldl ws_append ws (group_lines df data_columns g)"
  let ?new = "if 1 < length g then [(cur, cur + length g - 1, 1, 1)] else []"
  let ?w2 = "?w1\<lparr>merged_cells := merged_cells ws @ ?new\<rparr>"
  have step: "(if 1 < length g
               then ws_merge_cells (write_group_nav df data_columns ws g) cur
                      (cur + length g - 1) 1 1
               else write_group_nav df data_columns ws g) = ?w2"
    using Cons.prems merge_group_keeps_cells [of g ws df data_columns]
    by (simp add: write_group_nav_lines merged_cells_foldl_ws_append)
  have next_row: "cur + length g = Suc (current_row ?w2)"
    using Cons.prems by (simp add: current_row_foldl_ws_append length_group_lines)
  have "merged_loop_nav df data_columns ws cur (g # gs) =
          merged_loop_nav df data_columns ?w2 (cur + length g) gs"
    using step by (simp add: Let_def)
  also have "\<dots> = (foldl ws_append ?w2 (concat (map (group_lines df data_columns) gs)))
                      \<lparr>merged_cells := merged_cells ?w2 @ merge_ranges (cur + length g) gs\<rparr>"
    using next_row by (rule Cons.IH)
  finally show ?case
    by (simp add: foldl_ws_append_merged_update)
qed

lemma current_row_write_cells:
  "current_row (write_cells ws r c vs) = (if vs = [] then current_row ws else max r (current_row ws))"
  by (induction vs arbitrary: ws c) (auto simp add: ws_cell_def)

lemma merged_cells_write_cells: "merged_cells (write_cells ws r c vs) = merged_cells ws"
  by (induction vs arbitrary: ws c) (simp_all add: ws_cell_def)

text \<open>
  \<open>create_merged_sheet\<close> of the navigation pipeline on a sheet that has the link row only:
  the headers are in row 2, the lines of the groups follow from row 3, and the first column
  is merged over exactly the rows of each group of more than one row.
\<close>

lemma create_merged_sheet_nav_lines:
  assumes "df \<noteq> []" and "current_row ws \<le> 2"
  shows "create_merged_sheet_nav ws df data_columns =
           (foldl ws_append (write_cells ws 2 1 (map PStr (''fqdn'' # data_columns)))
              (concat (map (group_lines df data_columns) (groupby df))))
             \<lparr>merged_cells := merged_cells ws @ merge_ranges 3 (groupby df)\<rparr>"
proof -
  let ?w1 = "write_cells ws 2 1 (map PStr (''fqdn'' # data_columns))"
  have "current_row ?w1 = 2"
    using assms(2) by (simp add: current_row_write_cells del: write_cells.simps)
  then have "3 = Suc (current_row ?w1)"
    by simp
  then have "merged_loop_nav df data_columns ?w1 3 (groupby df) =
      (foldl ws_append ?w1 (concat (map (group_lines df data_columns) (groupby df))))
        \<lparr>merged_cells := merged_cells ?w1 @ merge_ranges 3 (groupby df)\<rparr>"
    by (rule merged_loop_nav_lines)
  then show ?thesis
    using assms(1)
    by (simp add: create_merged_sheet_nav_def Let_def merged_cells_write_cells
        del: write_cells.simps)
qed

lemma nth_concat_offset:
  "n < length xss \<Longrightarrow> i < length (xss ! n) \<Longrightarrow>
   concat xss ! (sum_list (map length (take n xss)) + i) = xss ! n ! i"
proof (induction xss arbitrary: n)
  case Nil
  then show ?case by simp
next
  case (Cons xs xss)
  show ?case
  proof (cases n)
    case 0
    then show ?thesis using Cons.prems by (simp add: nth_append)
  next
    case (Suc m)
    then have "concat xss ! (sum_list (map length (take m xss)) + i) = xss ! m ! i"
      using Cons.prems by (intro Cons.IH) simp_all
    then show ?thesis
      using Suc by (simp add: nth_append add.assoc)
  qed
qed

lemma offset_less_concat:
  "n < length xss \<Longrightarrow> i < length (xss ! n) \<Longrightarrow>
   sum_list (map length (take n xss)) + i < length (concat xss)"
proof (induction xss arbitrary: n)
  case Nil
  then show ?case by simp
next
  case (Cons xs xss)
  show ?case
  proof (cases n)
    case 0
    then show ?thesis using Cons.prems by simp
  next
    case (Suc m)
    then have "sum_list (map length (take m xss)) + i < length (concat xss)"
      using Cons.prems by (intro Cons.IH) simp_all
    then show ?thesis
      using Suc by simp
  qed
qed

text \<open>The merged ranges are those of the groups of more than one row, each over its rows.\<close>

lemma merge_ranges_set:
  "x \<in> set (merge_ranges r gs) \<longleftrightarrow>
     (\<exists>n < length gs. 1 < length (gs ! n) \<and>
        x = (r + sum_list (map length (take n gs)),
             r + sum_list (map length (take n gs)) + length (gs ! n) - 1, 1, 1))"
proof (induction gs arbitrary: r)
  case Nil
  then show ?case by simp
next
  case (Cons g gs)
  have tail: "(\<exists>n < length gs. 1 < length (gs ! n) \<and>
                x = (r + length g + sum_list (map length (take n gs)),
                     r + length g + sum_list (map length (take n gs)) + length (gs ! n) - 1, 1, 1))
              \<longleftrightarrow>
              (\<exists>n < length (g # gs). 0 < n \<and> 1 < length ((g # gs) ! n) \<and>
                x = (r + sum_list (map length (take n (g # gs))),
                     r + sum_list (map length (take n (g # gs))) + length ((g # gs) ! n) - 1,
                     1, 1))"
    (is "?A \<longleftrightarrow> ?B")
  proof
    assume ?A
    then obtain m where "m < length gs" "1 < length (gs ! m)"
      "x = (r + length g + sum_list (map length (take m gs)),
            r + length g + sum_list (map length (take m gs)) + length (gs ! m) - 1, 1, 1)"
      by blast
    then have "Suc m < length (g # gs) \<and> 0 < Suc m \<and> 1 < length ((g # gs) ! Suc m) \<and>
      x = (r + sum_list (map length (take (Suc m) (g # gs))),
           r + sum_list (map length (take (Suc m) (g # gs))) + length ((g # gs) ! Suc m) - 1,
           1, 1)"
      by (simp add: add.assoc)
    then show ?B by blast
  next
    assume ?B
    then obtain n where n: "n < length (g # gs)" "0 < n" "1 < length ((g # gs) ! n)"
      "x = (r + sum_list (map length (take n (g # gs))),
            r + sum_list (map length (take n (g # gs))) + length ((g # gs) ! n) - 1, 1, 1)"
      by blast
    then obtain m where m: "n = Suc m" by (cases n) simp_all
    have "m < length gs \<and> 1 < length (gs ! m) \<and>
      x = (r + length g + sum_list (map length (take m gs)),
           r + length g + sum_list (map length (take m gs)) + length (gs ! m) - 1, 1, 1)"
      using n m by (simp add: add.assoc)
    then show ?A by blast
  qed
  have head: "(1 < length g \<and> x = (r, r + length g - 1, 1, 1)) \<longleftrightarrow>
              (\<exists>n < length (g # gs). n = 0 \<and> 1 < length ((g # gs) ! n) \<and>
                x = (r + sum_list (map length (take n (g # gs))),
                     r + sum_list (map length (take n (g # gs))) + length ((g # gs) ! n) - 1,
                     1, 1))"
    by auto
  have "x \<in> set (merge_ranges r (g # gs)) \<longleftrightarrow>
          (1 < length g \<and> x = (r, r + length g - 1, 1, 1)) \<or>
          x \<in> set (merge_ranges (r + length g) gs)"
    by auto
  also have "\<dots> \<longleftrightarrow>
      (\<exists>n < length (g # gs). n = 0 \<and> 1 < length ((g # gs) ! n) \<and>
          x = (r + sum_list (map length (take n (g # gs))),
               r + sum_list (map length (take n (g # gs))) + length ((g # gs) ! n) - 1, 1, 1)) \<or>
      (\<exists>n < length (g # gs). 0 < n \<and> 1 < length ((g # gs) ! n) \<and>
          x = (r + sum_list (map length (take n (g # gs))),
               r + sum_list (map length (take n (g # gs))) + length ((g # gs) ! n) - 1, 1, 1))"
    using head tail Cons.IH [of "r + length g"] by simp
  also have "\<dots> \<longleftrightarrow>
      (\<exists>n < length (g # gs). 1 < length ((g # gs) ! n) \<and>
          x = (r + sum_list (map length (take n (g # gs))),
               r + sum_list (map length (take n (g # gs))) + length ((g # gs) ! n) - 1, 1, 1))"
    by (metis neq0_conv)
  finally show ?case .
qed

text \<open>
  The grouped sheet of the navigation pipeline, group by group: the \<open>K\<close> rows of group
  \<open>n\<close> are the \<open>K\<close> consecutive sheet rows after the rows of the groups before it; the
  device name is in the first of them and the data in all of them; and the first column is
  merged over exactly these rows when \<open>K > 1\<close>, and over no range that starts there
  otherwise.
\<close>

lemma create_merged_sheet_nav_group:
  assumes "df \<noteq> []" and "current_row ws \<le> 2"
    and "n < length (groupby df)" and "i < length (groupby df ! n)"
  defines "start \<equiv> 3 + sum_list (map length (take n (groupby df)))"
  shows "cells (create_merged_sheet_nav ws df data_columns) (start + i, 1) =
           Some (if i = 0 then key_val (fst (groupby df ! n ! 0)) else PNone)"
    and "\<forall>j < length data_columns.
           cells (create_merged_sheet_nav ws df data_columns) (start + i, j + 2) =
             Some (row_get df (groupby df ! n ! i) (data_columns ! j))"
    and "(start, start + length (groupby df ! n) - 1, 1, 1)
           \<in> set (merge_ranges 3 (groupby df)) \<longleftrightarrow> 1 < length (groupby df ! n)"
    and "merged_cells (create_merged_sheet_nav ws df data_columns) =
           merged_cells ws @ merge_ranges 3 (groupby df)"
proof -
  let ?gs = "groupby df"
  let ?ls = "map (group_lines df data_columns) ?gs"
  let ?w1 = "write_cells ws 2 1 (map PStr (''fqdn'' # data_columns))"
  let ?off = "sum_list (map length (take n ?gs))"
  have eq: "create_merged_sheet_nav ws df data_columns =
              (foldl ws_append ?w1 (concat ?ls))
                \<lparr>merged_cells := merged_cells ws @ merge_ranges 3 ?gs\<rparr>"
    using assms(1,2) by (rule create_merged_sheet_nav_lines)
  have cur: "current_row ?w1 = 2"
    using assms(2) by (simp add: current_row_write_cells del: write_cells.simps)
  have off: "sum_list (map length (take n ?ls)) = ?off"
    by (simp add: take_map comp_def length_group_lines)
  have len: "i < length (?ls ! n)" and n': "n < length ?ls"
    using assms(3,4) by (simp_all add: length_group_lines)
  have line: "concat ?ls ! (?off + i) = group_lines df data_columns (?gs ! n) ! i"
    using nth_concat_offset [OF n' len] assms(3) by (simp add: off)
  have inside: "?off + i < length (concat ?ls)"
    using offset_less_concat [OF n' len] by (simp add: off)
  have cell: "cells (create_merged_sheet_nav ws df data_columns) (start + i, Suc c) =
                Some (group_lines df data_columns (?gs ! n) ! i ! c)"
    if "c < length (group_lines df data_columns (?gs ! n) ! i)" for c
  proof -
    have pos: "current_row ?w1 + 1 + (?off + i) = start + i"
      using cur by (simp add: start_def del: write_cells.simps)
    have "cells (foldl ws_append ?w1 (concat ?ls)) (current_row ?w1 + 1 + (?off + i), Suc c) =
            Some (concat ?ls ! (?off + i) ! c)"
      using inside that by (intro cells_foldl_ws_append_new) (simp_all add: line)
    then have "cells (foldl ws_append ?w1 (concat ?ls)) (start + i, Suc c) =
                 Some (group_lines df data_columns (?gs ! n) ! i ! c)"
      unfolding pos line .
    then show ?thesis
      by (simp add: eq del: write_cells.simps)
  qed
  obtain first_row others where g: "?gs ! n = first_row # others"
    using assms(4) by (cases "?gs ! n") simp_all
  have l0: "group_lines df data_columns (?gs ! n) ! i =
              (if i = 0 then key_val (fst (?gs ! n ! 0)) else PNone)
              # map (row_get df (?gs ! n ! i)) data_columns"
    using assms(4) g by (cases i) (simp_all add: group_lines_def)
  show "cells (create_merged_sheet_nav ws df data_columns) (start + i, 1) =
          Some (if i = 0 then key_val (fst (?gs ! n ! 0)) else PNone)"
    using cell [of 0] by (simp add: l0)
  show "\<forall>j < length data_columns.
          cells (create_merged_sheet_nav ws df data_columns) (start + i, j + 2) =
            Some (row_get df (?gs ! n ! i) (data_columns ! j))"
  proof (intro allI impI)
    fix j assume "j < length data_columns"
    then show "cells (create_merged_sheet_nav ws df data_columns) (start + i, j + 2) =
                 Some (row_get df (?gs ! n ! i) (data_columns ! j))"
      using cell [of "Suc j"] by (simp add: l0)
  qed
  show "merged_cells (create_merged_sheet_nav ws df data_columns) =
          merged_cells ws @ merge_ranges 3 ?gs"
    by (simp add: eq)
  show "(start, start + length (?gs ! n) - 1, 1, 1) \<in> set (merge_ranges 3 ?gs)
          \<longleftrightarrow> 1 < length (?gs ! n)"
  proof
    assume "(start, start + length (?gs ! n) - 1, 1, 1) \<in> set (merge_ranges 3 ?gs)"
    then obtain m where m: "m < length ?gs" "1 < length (?gs ! m)"
      "start = 3 + sum_list (map length (take m ?gs))"
      "start + length (?gs ! n) - 1 = 3 + sum_list (map length (take m ?gs)) + length (?gs ! m) - 1"
      unfolding merge_ranges_set by auto
    then have "length (?gs ! n) = length (?gs ! m)"
      using assms(4) by simp
    then show "1 < length (?gs ! n)"
      using m by simp
  next
    assume "1 < length (?gs ! n)"
    then show "(start, start + length (?gs ! n) - 1, 1, 1) \<in> set (merge_ranges 3 ?gs)"
      unfolding merge_ranges_set start_def using assms(3) by blast
  qed
qed

section \<open>The grouped sheet of the optimised pipeline\<close>

lemma map_err_row_item:
  "\<forall>c \<in> set cs. df_has_col df c \<Longrightarrow> map_err (row_item df r) cs = Inr (map (row_get df r) cs)"
  by (induction cs) (simp_all add: row_item_def)

lemma append_others_opt_lines:
  "\<forall>c \<in> set data_columns. df_has_col df c \<Longrightarrow>
   append_others_opt df data_columns ws rs =
     (foldl ws_append ws (map (\<lambda>r. PNone # map (row_get df r) data_columns) rs), None)"
  by (induction rs arbitrary: ws) (simp_all add: map_err_row_item)

lemma write_group_opt_lines:
  assumes "\<forall>c \<in> set data_columns. df_has_col df c"
  shows "write_group_opt df data_columns ws g =
           (foldl ws_append ws (group_lines df data_columns g), None)"
proof (cases g)
  case Nil
  then show ?thesis by (simp add: write_group_opt_def group_lines_def)
next
  case (Cons first_row others)
  have "\<forall>c \<in> set (''fqdn'' # data_columns). df_has_col df c"
    using assms by (simp add: df_has_col_def)
  then have "map_err (row_item df first_row) (''fqdn'' # data_columns) =
               Inr (map (row_get df first_row) (''fqdn'' # data_columns))"
    by (rule map_err_row_item)
  then show ?thesis
    using Cons assms
    by (simp add: write_group_opt_def group_lines_def append_others_opt_lines row_get_def)
qed

lemma merged_loop_opt_ranges:
  assumes "\<forall>c \<in> set data_columns. df_has_col df c"
  shows "merged_cells (merged_loop_opt df data_columns ws cur gs) =
           merged_cells ws @ merge_ranges cur gs \<and>
         current_row (merged_loop_opt df data_columns ws cur gs) =
           current_row ws + length (concat gs)"
proof (induction gs arbitrary: ws cur)
  case Nil
  then show ?case by simp
next
  case (Cons g gs)
  let ?w1 = "foldl ws_append ws (group_lines df data_columns g)"
  let ?w2 = "if 1 < length g then ws_merge_cells ?w1 cur (cur + length g - 1) 1 1 else ?w1"
  have loop: "merged_loop_opt df data_columns ws cur (g # gs) =
                merged_loop_opt df data_columns ?w2 (cur + length g) gs"
    by (simp add: write_group_opt_lines [OF assms] Let_def)
  have m: "merged_cells ?w2 =
             merged_cells ws @ (if 1 < length g then [(cur, cur + length g - 1, 1, 1)] else [])"
    by (simp add: ws_merge_cells_def merged_cells_foldl_ws_append)
  have c: "current_row ?w2 = current_row ws + length g"
    by (simp add: ws_merge_cells_def current_row_foldl_ws_append length_group_lines)
  show ?case
    unfolding loop using Cons.IH [of ?w2 "cur + length g"]
    by (simp only: m c) simp
qed

text \<open>
  C7. Both pipelines write the header into row 2 of a sheet that has the link row, and the
  rows of the groups into the rows from 3 on. The navigation pipeline merges the first
  column of a group of \<open>K > 1\<close> rows over exactly these \<open>K\<close> rows, and merges nothing for a
  group of one row (lemma \<open>create_merged_sheet_nav_group\<close>). The optimised pipeline counts
  the rows from 2, so each of its merged ranges lies one row above the group: it begins in
  the header row or in the last row of the group before, and leaves out the last row of the
  group.
\<close>

theorem create_merged_sheet_opt_merges_one_row_up:
  assumes "df \<noteq> []" and "current_row ws = 1"
    and "\<forall>c \<in> set data_columns. df_has_col df c"
  shows "current_row (create_merged_sheet_opt ws df data_columns) =
           2 + length (concat (groupby df)) \<and>
         merged_cells (create_merged_sheet_opt ws df data_columns) =
           merged_cells ws @ merge_ranges 2 (groupby df) \<and>
         current_row (create_merged_sheet_nav ws df data_columns) =
           2 + length (concat (groupby df)) \<and>
         merged_cells (create_merged_sheet_nav ws df data_columns) =
           merged_cells ws @ merge_ranges 3 (groupby df)"
proof -
  let ?h = "ws_append ws (map PStr (''fqdn'' # data_columns))"
  have h: "current_row ?h = 2" "merged_cells ?h = merged_cells ws"
    using assms(2) by (simp_all add: ws_append_def)
  have opt: "create_merged_sheet_opt ws df data_columns =
               merged_loop_opt df data_columns ?h 2 (groupby df)"
    using assms(1) by (simp add: create_merged_sheet_opt_def Let_def)
  have o: "current_row (create_merged_sheet_opt ws df data_columns) =
             2 + length (concat (groupby df)) \<and>
           merged_cells (create_merged_sheet_opt ws df data_columns) =
             merged_cells ws @ merge_ranges 2 (groupby df)"
    unfolding opt
    using merged_loop_opt_ranges [OF assms(3), of ?h 2 "groupby df", unfolded h]
    by simp
  have le: "current_row ws \<le> 2"
    using assms(2) by simp
  let ?w1 = "write_cells ws 2 1 (map PStr (''fqdn'' # data_columns))"
  have w1: "current_row ?w1 = 2"
    using le by (simp add: current_row_write_cells del: write_cells.simps)
  have len: "length (concat (map (group_lines df data_columns) (groupby df))) =
               length (concat (groupby df))"
    by (simp add: length_concat comp_def length_group_lines)
  note eq = create_merged_sheet_nav_lines [OF assms(1) le, of data_columns]
  have "current_row (create_merged_sheet_nav ws df data_columns) =
          current_row (foldl ws_append ?w1
            (concat (map (group_lines df data_columns) (groupby df))))"
    unfolding eq by simp
  also have "\<dots> = 2 + length (concat (groupby df))"
    by (simp only: current_row_foldl_ws_append w1 len)
  finally have n1: "current_row (create_merged_sheet_nav ws df data_columns) =
                      2 + length (concat (groupby df))" .
  have n2: "merged_cells (create_merged_sheet_nav ws df data_columns) =
              merged_cells ws @ merge_ranges 3 (groupby df)"
    unfolding eq by simp
  note n = conjI [OF n1 n2]
  show ?thesis
    using o n by simp
qed

theorem create_merged_sheet_opt_merges_one_row_up_witness:
  "sample_software \<noteq> [] \<and>
   current_row (add_back_to_navigation_link (new_sheet ''Corp_SOFTWARE'')) = 1 \<and>
   df_has_col sample_software ''name'' \<and>
   map length (groupby sample_software) = [1, 2] \<and>
   current_row (create_merged_sheet_opt
      (add_back_to_navigation_link (new_sheet ''Corp_SOFTWARE'')) sample_software [''name'']) = 5 \<and>
   merged_cells (create_merged_sheet_opt
      (add_back_to_navigation_link (new_sheet ''Corp_SOFTWARE'')) sample_software [''name'']) =
     [(3, 4, 1, 1)] \<and>
   merged_cells (create_merged_sheet_nav
      (add_back_to_navigation_link (new_sheet ''Corp_SOFTWARE'')) sample_software [''name'']) =
     [(4, 5, 1, 1)] \<and>
   cells (create_merged_sheet_opt
      (add_back_to_navigation_link (new_sheet ''Corp_SOFTWARE'')) sample_software [''name''])
      (3, 1) = Some (PStr ''alpha'') \<and>
   cells (create_merged_sheet_opt
      (add_back_to_navigation_link (new_sheet ''Corp_SOFTWARE'')) sample_software [''name''])
      (4, 1) = Some PNone \<and>
   cells (create_merged_sheet_opt
      (add_back_to_navigation_link (new_sheet ''Corp_SOFTWARE'')) sample_software [''name''])
      (4, 2) = Some (PStr ''nginx'') \<and>
   cells (create_merged_sheet_opt
      (add_back_to_navigation_link (new_sheet ''Corp_SOFTWARE'')) sample_software [''name''])
      (5, 2) = Some (PStr ''bash'') \<and>
   cells (create_merged_sheet_nav
      (add_back_to_navigation_link (new_sheet ''Corp_SOFTWARE'')) sample_software [''name''])
      (4, 1) = Some (PStr ''host'')"
proof -
  let ?ws = "add_back_to_navigation_link (new_sheet ''Corp_SOFTWARE'')"
  have h1: "sample_software \<noteq> []" by code_simp
  have h2: "current_row ?ws = 1" by code_simp
  have h3: "\<forall>c \<in> set [''name'']. df_has_col sample_software c" by code_simp
  have h3': "df_has_col sample_software ''name''" by code_simp
  have g: "map length (groupby sample_software) = [1, 2]" by code_simp
  have n: "length (concat (groupby sample_software)) = 3" by code_simp
  have m0: "merged_cells ?ws = []" by code_simp
  have r2: "merge_ranges 2 (groupby sample_software) = [(3, 4, 1, 1)]" by code_simp
  have r3: "merge_ranges 3 (groupby sample_software) = [(4, 5, 1, 1)]" by code_simp
  note inst = create_merged_sheet_opt_merges_one_row_up [OF h1 h2 h3, unfolded n m0 r2 r3]
  from inst have a: "current_row (create_merged_sheet_opt ?ws sample_software [''name'']) = 5"
    by simp
  from inst have b: "merged_cells (create_merged_sheet_opt ?ws sample_software [''name'']) =
                       [(3, 4, 1, 1)]"
    by simp
  from inst have c: "merged_cells (create_merged_sheet_nav ?ws sample_software [''name'']) =
                       [(4, 5, 1, 1)]"
    by simp
  have c31: "cells (create_merged_sheet_opt ?ws sample_software [''name'']) (3, 1) =
               Some (PStr ''alpha'')"
    by code_simp
  have c41: "cells (create_merged_sheet_opt ?ws sample_software [''name'']) (4, 1) = Some PNone"
    by code_simp
  have c42: "cells (create_merged_sheet_opt ?ws sample_software [''name'']) (4, 2) =
               Some (PStr ''nginx'')"
    by code_simp
  have c52: "cells (create_merged_sheet_opt ?ws sample_software [''name'']) (5, 2) =
               Some (PStr ''bash'')"
    by code_simp
  have n41: "cells (create_merged_sheet_nav ?ws sample_software [''name'']) (4, 1) =
               Some (PStr ''host'')"
    by code_simp
  show ?thesis
    using h1 h2 h3' g a b c c31 c41 c42 c52 n41 by (intro conjI) assumption+
qed

end
